theory Spec2Isabelle
  imports Complex_Main "HOL-Library.AList"
begin

section \<open>Hydroponics controller: relays, sensor polling and the scheduler\<close>

text \<open>
  A shallow embedding of \<^verbatim>\<open>gpio_controller.js\<close> (classes \<^verbatim>\<open>GPIOController\<close> and
  \<^verbatim>\<open>DHT11Sensor\<close>) and of the class \<^verbatim>\<open>Scheduler\<close>. The objects' fields are the
  fields of one record \<open>system\<close>; a method takes the record and returns the updated
  one. A method that can throw returns a pair: the state at the moment of the return
  or throw, and \<open>Inl\<close> of the exception or \<open>Inr\<close> of the value. The columns of
  the rule tables that hold identifiers and seconds are \<open>int\<close>; temperature, humidity
  and thresholds are \<open>real\<close> (the doubles of the source, without rounding error). An
  argument that reaches a method from outside, such as the relay id of \<^verbatim>\<open>controlRele\<close>,
  is a JavaScript value.
\<close>

subsection \<open>Configuration (\<^verbatim>\<open>config.js\<close>)\<close>

record config =
  relePins :: "nat list"
  releActiveLow :: bool
  temperature_min :: real
  temperature_max :: real
  humidity_min :: real
  humidity_max :: real
  backup_enabled :: bool
  backup_frequency :: int

definition config_js :: config where
  "config_js = \<lparr>relePins = [2, 3, 4, 18], releActiveLow = True,
     temperature_min = 18, temperature_max = 28, humidity_min = 40, humidity_max = 80,
     backup_enabled = True, backup_frequency = 24\<rparr>"

subsection \<open>Data\<close>

datatype pin_level = LOW | HIGH

text \<open>The exceptions thrown in the modelled code, one constructor per \<^verbatim>\<open>throw\<close> site
  or failing library call.\<close>

datatype exn =
    InvalidReleId
  | PinWriteFailed
  | SensorNotInitialized
  | InvalidSensorReading
  | InvalidCronExpression
  | QueryFailed

text \<open>JavaScript numbers and values. A number is a real (rounding to a double is left
  out), \<^verbatim>\<open>NaN\<close> or an infinity. Objects and arrays are left out of the values.\<close>

datatype jsnum = Num real | NaN | PosInfinity | NegInfinity

datatype js_value = JUndefined | JNull | JBoolean bool | JNumber jsnum | JString string

text \<open>The \<^verbatim>\<open>reason\<close> strings handed to \<^verbatim>\<open>controlRele\<close>, one constructor per
  template of the source.\<close>

datatype reason =
    ManualControl
  | SystemInitialization
  | ScheduleStart string string
  | ScheduleEnd string string
  | ConditionMet string string real
  | ConditionEnd string string real

datatype log_level = Info | Warn | Error

text \<open>The messages written by \<^verbatim>\<open>saveSystemLog\<close> and \<^verbatim>\<open>console.error\<close>, one
  constructor per template of the source.\<close>

datatype message =
    GPIOInitialized
  | ReleSetupError nat exn
  | ReleSwitched js_value bool reason
  | ReleControlError js_value exn
  | DHT11ReadError exn
  | TemperatureOutOfRange real
  | HumidityOutOfRange real
  | SchedulerInitialized
  | SchedulerInitError exn
  | SchedulerStopped
  | ScheduleExecuted int int
  | ScheduleExecError int exn
  | ConditionExecuted int int
  | ConditionExecError int exn
  | LoadSchedulesError exn
  | LoadConditionsError exn
  | AddScheduleError int exn
  | CheckConditionsError exn
  | UnknownOperator string

record log_entry =
  level :: log_level
  msg :: message
  source :: string

record rele_state_row =
  row_rele_id :: js_value
  row_state :: bool
  row_reason :: reason

record schedule =
  sched_id :: int
  rele_id :: int
  day_of_week :: int
  start_time :: string
  end_time :: string

record condition =
  cond_id :: int
  cond_rele_id :: int
  condition_type :: string
  threshold_value :: real
  operator :: string
  action :: string
  duration :: int

text \<open>A field of a cron expression: \<^verbatim>\<open>*\<close>, or the text that a template literal makes
  of a JavaScript value, represented by the value.\<close>

datatype cron_field = Star | Field js_value

record cron_expr =
  minute_field :: cron_field
  hour_field :: cron_field
  dow_field :: cron_field

datatype cron_action = RunSchedule schedule | CreateBackup | CleanupOldLogs

record cron_task =
  task_expr :: cron_expr
  task_action :: cron_action
  running :: bool

text \<open>A callback armed with \<^verbatim>\<open>setTimeout\<close>: it calls
  \<^verbatim>\<open>controlRele(rele, false, reason)\<close> once the clock reaches \<open>due\<close>.\<close>

record timeout =
  due :: int
  t_rele :: int
  t_reason :: reason

record active_schedule =
  a_schedule :: schedule
  a_task :: nat
  a_cronExpression :: cron_expr

record system =
  \<comment> \<open>\<^verbatim>\<open>GPIOController\<close>: the elements of the array \<^verbatim>\<open>releStates\<close>, and the
     properties set on it under a key that is not an index\<close>
  releStates :: "bool list"
  releStates_props :: "(jsnum \<times> bool) list"
  dht11 :: bool
  \<comment> \<open>\<^verbatim>\<open>DHT11Sensor\<close>\<close>
  lastReading :: "(real \<times> real) option"
  lastReadTime :: int
  \<comment> \<open>the pins: every \<^verbatim>\<open>rpio.write\<close> made, and the pins on which it throws\<close>
  pin_writes :: "(nat option \<times> pin_level) list"
  faulty_pins :: "nat option list"
  \<comment> \<open>\<^verbatim>\<open>Database\<close>: the tables written, and the rule tables read
     (\<open>None\<close>: the query is rejected)\<close>
  rele_states :: "rele_state_row list"
  system_logs :: "log_entry list"
  sensor_readings :: "(real \<times> real) list"
  stored_schedules :: "schedule list option"
  stored_conditions :: "condition list option"
  \<comment> \<open>\<^verbatim>\<open>console.error\<close> and \<^verbatim>\<open>console.warn\<close>\<close>
  console_errors :: "message list"
  \<comment> \<open>\<^verbatim>\<open>Scheduler\<close>; a key \<^verbatim>\<open>schedule_N\<close> or \<^verbatim>\<open>condition_N\<close> of the two rule maps is
     represented by the id \<open>N\<close>\<close>
  activeSchedules :: "(int \<times> active_schedule) list"
  activeConditions :: "(int \<times> condition) list"
  scheduledTasks :: "(string \<times> nat) list"
  isRunning :: bool
  \<comment> \<open>the timers: every task made by \<^verbatim>\<open>cron.schedule\<close>, the number of
     \<^verbatim>\<open>setInterval\<close> pollers, the armed \<^verbatim>\<open>setTimeout\<close> callbacks, the clock (ms)\<close>
  cron_tasks :: "cron_task list"
  intervals :: nat
  timeouts :: "timeout list"
  now :: int

type_synonym 'a result = "system \<times> (exn + 'a)"

subsection \<open>\<^verbatim>\<open>Database\<close>: appending rows\<close>

text \<open>A write is taken to succeed. In the source each of these returns a promise that
  is neither awaited nor caught by its callers; a rejected write is outside this
  model.\<close>

definition saveSystemLog :: "log_level \<Rightarrow> message \<Rightarrow> string \<Rightarrow> system \<Rightarrow> system" where
  "saveSystemLog l m src s =
     s\<lparr>system_logs := system_logs s @ [\<lparr>level = l, msg = m, source = src\<rparr>]\<rparr>"

definition saveReleState :: "js_value \<Rightarrow> bool \<Rightarrow> reason \<Rightarrow> system \<Rightarrow> system" where
  "saveReleState releId st r s =
     s\<lparr>rele_states := rele_states s @ [\<lparr>row_rele_id = releId, row_state = st, row_reason = r\<rparr>]\<rparr>"


definition console_error :: "message \<Rightarrow> system \<Rightarrow> system" where
  "console_error m s = s\<lparr>console_errors := console_errors s @ [m]\<rparr>"

subsection \<open>JavaScript: texts to numbers, values to numbers, comparison\<close>

fun split_on :: "char \<Rightarrow> string \<Rightarrow> string list" where
  "split_on c [] = [[]]"
| "split_on c (x # xs) =
     (if x = c then [] # split_on c xs
      else case split_on c xs of w # ws \<Rightarrow> (x # w) # ws | [] \<Rightarrow> [[x]])"

definition is_digit :: "char \<Rightarrow> bool" where
  "is_digit c = (48 \<le> (of_char c :: nat) \<and> (of_char c :: nat) \<le> 57)"

definition dec_value :: "string \<Rightarrow> int" where
  "dec_value ds = foldl (\<lambda>n c. 10 * n + (int (of_char c) - 48)) 0 ds"

text \<open>White space of a numeric text: tab, line feed, vertical tab, form feed, carriage
  return and space (the white space beyond ASCII is left out).\<close>

definition is_space :: "char \<Rightarrow> bool" where
  "is_space c = ((of_char c :: nat) = 32 \<or> 9 \<le> (of_char c :: nat) \<and> (of_char c :: nat) \<le> 13)"

definition trim :: "string \<Rightarrow> string" where
  "trim txt = rev (dropWhile is_space (rev (dropWhile is_space txt)))"

text \<open>The value of a digit in hexadecimal, and of a text of digits in a radix; \<open>None\<close>
  when the text is empty or has another character.\<close>

definition digit_value :: "char \<Rightarrow> nat option" where
  "digit_value c =
     (let n = (of_char c :: nat)
      in if 48 \<le> n \<and> n \<le> 57 then Some (n - 48)
         else if 97 \<le> n \<and> n \<le> 102 then Some (n - 87)
         else if 65 \<le> n \<and> n \<le> 70 then Some (n - 55)
         else None)"

definition radix_value :: "nat \<Rightarrow> string \<Rightarrow> int option" where
  "radix_value b ds =
     (if ds \<noteq> [] \<and> list_all (\<lambda>c. case digit_value c of Some v \<Rightarrow> v < b | None \<Rightarrow> False) ds
      then Some (foldl (\<lambda>n c. int b * n + int (case digit_value c of Some v \<Rightarrow> v | None \<Rightarrow> 0)) 0 ds)
      else None)"

text \<open>\<open>m\<close> times ten to the power \<open>k\<close>.\<close>

definition scale10 :: "int \<Rightarrow> int \<Rightarrow> real" where
  "scale10 m k = (if 0 \<le> k then real_of_int (m * 10 ^ nat k)
                  else real_of_int m / real_of_int (10 ^ nat (- k)))"

text \<open>The exponent part that ends a decimal literal: nothing (exponent 0), or
  \<^verbatim>\<open>e\<close> or \<^verbatim>\<open>E\<close>, an optional sign, and digits; \<open>None\<close> for any other text.\<close>

definition unsigned_digits :: "string \<Rightarrow> int option" where
  "unsigned_digits ds = (if ds \<noteq> [] \<and> list_all is_digit ds then Some (dec_value ds) else None)"

definition exponent_part :: "string \<Rightarrow> int option" where
  "exponent_part txt =
     (case txt of
        [] \<Rightarrow> Some 0
      | c # cs \<Rightarrow>
          if c = CHR ''e'' \<or> c = CHR ''E'' then
            (case cs of
               [] \<Rightarrow> None
             | d # ds \<Rightarrow>
                 if d = CHR ''+'' then unsigned_digits ds
                 else if d = CHR ''-'' then map_option uminus (unsigned_digits ds)
                 else unsigned_digits cs)
          else None)"

text \<open>An unsigned decimal literal: \<^verbatim>\<open>Infinity\<close>, or digits with an optional fraction, or
  a fraction alone, and then an optional exponent part.\<close>

definition unsigned_decimal :: "string \<Rightarrow> jsnum option" where
  "unsigned_decimal txt =
     (if txt = ''Infinity'' then Some PosInfinity
      else
        let ip = takeWhile is_digit txt;
            r1 = dropWhile is_digit txt;
            (fp, r2) = (case r1 of
                          c # cs \<Rightarrow> if c = CHR ''.''
                                    then (takeWhile is_digit cs, dropWhile is_digit cs)
                                    else ([], r1)
                        | [] \<Rightarrow> ([], []))
        in if ip = [] \<and> fp = [] then None
           else case exponent_part r2 of
                  None \<Rightarrow> None
                | Some e \<Rightarrow> Some (Num (scale10 (dec_value (ip @ fp)) (e - int (length fp)))))"

definition negate :: "jsnum \<Rightarrow> jsnum" where
  "negate n = (case n of Num r \<Rightarrow> Num (- r) | NaN \<Rightarrow> NaN
               | PosInfinity \<Rightarrow> NegInfinity | NegInfinity \<Rightarrow> PosInfinity)"

definition of_option :: "jsnum option \<Rightarrow> jsnum" where
  "of_option v = (case v of Some n \<Rightarrow> n | None \<Rightarrow> NaN)"

text \<open>\<^verbatim>\<open>Number(text)\<close>: the text is trimmed; the empty text is 0; a text with prefix
  \<^verbatim>\<open>0x\<close>, \<^verbatim>\<open>0o\<close> or \<^verbatim>\<open>0b\<close> (in either case) is read in that radix; otherwise an
  optional sign and an unsigned decimal literal; any other text is \<^verbatim>\<open>NaN\<close>. The
  value is the real number the text denotes: rounding to a double, and with it the
  overflow of a large literal to an infinity, is left out.\<close>

definition Number :: "string \<Rightarrow> jsnum" where
  "Number txt =
     (case trim txt of
        [] \<Rightarrow> Num 0
      | c # cs \<Rightarrow>
          if c = CHR ''0'' \<and> cs \<noteq> [] \<and> (hd cs = CHR ''x'' \<or> hd cs = CHR ''X'')
          then of_option (map_option (\<lambda>n. Num (real_of_int n)) (radix_value 16 (tl cs)))
          else if c = CHR ''0'' \<and> cs \<noteq> [] \<and> (hd cs = CHR ''o'' \<or> hd cs = CHR ''O'')
          then of_option (map_option (\<lambda>n. Num (real_of_int n)) (radix_value 8 (tl cs)))
          else if c = CHR ''0'' \<and> cs \<noteq> [] \<and> (hd cs = CHR ''b'' \<or> hd cs = CHR ''B'')
          then of_option (map_option (\<lambda>n. Num (real_of_int n)) (radix_value 2 (tl cs)))
          else if c = CHR ''+'' then of_option (unsigned_decimal cs)
          else if c = CHR ''-'' then of_option (map_option negate (unsigned_decimal cs))
          else of_option (unsigned_decimal (c # cs)))"

text \<open>The number a value is converted to in a comparison or a subtraction.\<close>

definition ToNumber :: "js_value \<Rightarrow> jsnum" where
  "ToNumber v =
     (case v of
        JUndefined \<Rightarrow> NaN
      | JNull \<Rightarrow> Num 0
      | JBoolean b \<Rightarrow> Num (if b then 1 else 0)
      | JNumber n \<Rightarrow> n
      | JString txt \<Rightarrow> Number txt)"

text \<open>\<^verbatim>\<open>a < b\<close> on numbers: false when either is \<^verbatim>\<open>NaN\<close>.\<close>

definition js_less :: "jsnum \<Rightarrow> jsnum \<Rightarrow> bool" where
  "js_less a b =
     (case (a, b) of
        (Num x, Num y) \<Rightarrow> x < y
      | (Num x, PosInfinity) \<Rightarrow> True
      | (NegInfinity, Num y) \<Rightarrow> True
      | (NegInfinity, PosInfinity) \<Rightarrow> True
      | _ \<Rightarrow> False)"

text \<open>\<^verbatim>\<open>a - 1\<close> on a number.\<close>

definition minus_one :: "jsnum \<Rightarrow> jsnum" where
  "minus_one a = (case a of Num x \<Rightarrow> Num (x - 1) | other \<Rightarrow> other)"

text \<open>The array index a number names as a property key, if it names one.\<close>

definition is_integer :: "real \<Rightarrow> bool" where
  "is_integer r = (r = real_of_int \<lfloor>r\<rfloor>)"

definition array_index :: "jsnum \<Rightarrow> nat option" where
  "array_index a =
     (case a of Num r \<Rightarrow> if is_integer r \<and> 0 \<le> r then Some (nat \<lfloor>r\<rfloor>) else None
      | _ \<Rightarrow> None)"

text \<open>An integer as a JavaScript value.\<close>

definition JInt :: "int \<Rightarrow> js_value" where
  "JInt n = JNumber (Num (real_of_int n))"

subsection \<open>\<^verbatim>\<open>GPIOController\<close>: relays\<close>

text \<open>\<^verbatim>\<open>config.gpio.relePins[pinIndex]\<close>: \<^verbatim>\<open>undefined\<close> (here \<open>None\<close>) past the end.\<close>

definition pin_at :: "config \<Rightarrow> nat \<Rightarrow> nat option" where
  "pin_at cfg i = (if i < length (relePins cfg) then Some (relePins cfg ! i) else None)"

text \<open>\<^verbatim>\<open>rpio.write(pin, pinState)\<close>: the call is recorded; it throws on a faulty pin.\<close>

definition rpio_write :: "nat option \<Rightarrow> pin_level \<Rightarrow> system \<Rightarrow> unit result" where
  "rpio_write pin lv s =
     (let s1 = s\<lparr>pin_writes := pin_writes s @ [(pin, lv)]\<rparr>
      in if pin \<in> set (faulty_pins s) then (s1, Inl PinWriteFailed) else (s1, Inr ()))"

text \<open>\<^verbatim>\<open>controlRele(releId, state, reason)\<close>. The guard compares the id as a number, so
  an id whose number is \<^verbatim>\<open>NaN\<close> passes it. \<^verbatim>\<open>relePins[pinIndex]\<close> is \<^verbatim>\<open>undefined\<close>
  when \<open>pinIndex\<close> is not an index of the array, and
  \<^verbatim>\<open>this.releStates[pinIndex] = state\<close> then sets a property beside the elements.\<close>

definition controlRele :: "config \<Rightarrow> js_value \<Rightarrow> bool \<Rightarrow> reason \<Rightarrow> system \<Rightarrow> bool result" where
  "controlRele cfg releId st r s =
     (if js_less (ToNumber releId) (Num 1) \<or> js_less (Num 4) (ToNumber releId)
      then (s, Inl InvalidReleId)
      else
        let pinIndex = minus_one (ToNumber releId);
            pin = (case array_index pinIndex of Some i \<Rightarrow> pin_at cfg i | None \<Rightarrow> None);
            pinState = (if releActiveLow cfg then (if st then LOW else HIGH)
                        else (if st then HIGH else LOW))
        in case rpio_write pin pinState s of
             (s1, Inr u) \<Rightarrow>
               let s2 = (case array_index pinIndex of
                           Some i \<Rightarrow> s1\<lparr>releStates := (releStates s1)[i := st]\<rparr>
                         | None \<Rightarrow>
                             s1\<lparr>releStates_props :=
                                  AList.update pinIndex st (releStates_props s1)\<rparr>);
                   s3 = saveReleState releId st r s2;
                   s4 = saveSystemLog Info (ReleSwitched releId st r) ''GPIOController'' s3
               in (s4, Inr True)
           | (s1, Inl e) \<Rightarrow>
               let s2 = console_error (ReleControlError releId e) s1;
                   s3 = saveSystemLog Error (ReleControlError releId e) ''GPIOController'' s2
               in (s3, Inr False))"

text \<open>\<^verbatim>\<open>getReleState(releId)\<close>: \<^verbatim>\<open>this.releStates[releId - 1]\<close>, which is
  \<^verbatim>\<open>undefined\<close> (here \<open>None\<close>) past the end of the array or under a key never set.\<close>

definition getReleState :: "js_value \<Rightarrow> system \<Rightarrow> (bool option) result" where
  "getReleState releId s =
     (if js_less (ToNumber releId) (Num 1) \<or> js_less (Num 4) (ToNumber releId)
      then (s, Inl InvalidReleId)
      else
        let key = minus_one (ToNumber releId)
        in (s, Inr (case array_index key of
                      Some i \<Rightarrow> if i < length (releStates s) then Some (releStates s ! i) else None
                    | None \<Rightarrow> map_of (releStates_props s) key)))"

text \<open>The constructors' field initialisers, over the rule tables of the database.\<close>

definition new_system :: "schedule list option \<Rightarrow> condition list option \<Rightarrow> system" where
  "new_system scheds conds =
     \<lparr>releStates = [False, False, False, False], releStates_props = [], dht11 = False,
      lastReading = None, lastReadTime = 0,
      pin_writes = [], faulty_pins = [],
      rele_states = [], system_logs = [], sensor_readings = [],
      stored_schedules = scheds, stored_conditions = conds,
      console_errors = [],
      activeSchedules = [], activeConditions = [], scheduledTasks = [], isRunning = False,
      cron_tasks = [], intervals = 0, timeouts = [], now = 0\<rparr>"

text \<open>\<^verbatim>\<open>setupRelePins\<close> (with \<^verbatim>\<open>releInitialState\<close> false), \<^verbatim>\<open>setupDHT11\<close> and
  \<^verbatim>\<open>GPIOController.init\<close>.\<close>

definition setupRelePin :: "config \<Rightarrow> nat \<times> nat \<Rightarrow> system \<Rightarrow> system" where
  "setupRelePin cfg = (\<lambda>(index, pin) s.
     case rpio_write (Some pin) (if releActiveLow cfg then HIGH else LOW) s of
       (s1, Inr u) \<Rightarrow> saveReleState (JInt (int index + 1)) False SystemInitialization s1
     | (s1, Inl e) \<Rightarrow> console_error (ReleSetupError (index + 1) e) s1)"

definition setupRelePins :: "config \<Rightarrow> system \<Rightarrow> system" where
  "setupRelePins cfg s = fold (setupRelePin cfg) (enumerate 0 (relePins cfg)) s"

definition GPIOController_init :: "config \<Rightarrow> system \<Rightarrow> system" where
  "GPIOController_init cfg s =
     saveSystemLog Info GPIOInitialized ''GPIOController''
       ((setupRelePins cfg s)\<lparr>dht11 := True\<rparr>)"

subsection \<open>\<^verbatim>\<open>DHT11Sensor\<close> and \<^verbatim>\<open>GPIOController.readDHT11\<close>\<close>










subsection \<open>Times of day: \<^verbatim>\<open>moment(_, 'HH:mm')\<close>\<close>

text \<open>\<^verbatim>\<open>moment(text, 'HH:mm')\<close> as seconds since the start of the day of the call, for
  a text of one or two digits, a colon, and one or two digits, naming an hour up to 23
  and a minute up to 59. \<open>None\<close> is the invalid date. The library also reads some
  other texts as times (\<^verbatim>\<open>24:00\<close>, a text with a seconds part, a text with other
  characters around the digits); these are outside this model, which takes them to the
  invalid date, and what is proved of a duration is proved for the texts above. A
  change of the clock during the day is not modelled.\<close>

definition moment_HHmm :: "string \<Rightarrow> int option" where
  "moment_HHmm txt =
     (case split_on CHR '':'' txt of
        [hh, mm] \<Rightarrow>
          if list_all is_digit hh \<and> list_all is_digit mm \<and>
             1 \<le> length hh \<and> length hh \<le> 2 \<and> 1 \<le> length mm \<and> length mm \<le> 2 \<and>
             dec_value hh \<le> 23 \<and> dec_value mm \<le> 59
          then Some (dec_value hh * 3600 + dec_value mm * 60)
          else None
      | _ \<Rightarrow> None)"

subsection \<open>Timers\<close>

text \<open>Modelled from the spec: the validation that \<^verbatim>\<open>cron.schedule\<close> of the node-cron
  package applies to an expression, which is not part of the sources. Registration fails
  if the hour is not in 0 to 23 or the minute is not in 0 to 59 (a field that is not the
  text of a whole number is in neither range); the day-of-week field is not examined.\<close>

definition valid_field :: "int \<Rightarrow> int \<Rightarrow> cron_field \<Rightarrow> bool" where
  "valid_field lo hi f =
     (case f of
        Star \<Rightarrow> True
      | Field (JNumber (Num r)) \<Rightarrow> is_integer r \<and> real_of_int lo \<le> r \<and> r \<le> real_of_int hi
      | Field _ \<Rightarrow> False)"

definition cron_valid :: "cron_expr \<Rightarrow> bool" where
  "cron_valid e = (valid_field 0 59 (minute_field e) \<and> valid_field 0 23 (hour_field e))"

text \<open>\<^verbatim>\<open>cron.schedule(expr, callback, {scheduled: false})\<close>: throws on an invalid
  expression, otherwise makes a task that is not yet running and returns it (its index
  in \<open>cron_tasks\<close>).\<close>

definition cron_schedule :: "cron_expr \<Rightarrow> cron_action \<Rightarrow> system \<Rightarrow> nat result" where
  "cron_schedule e a s =
     (if cron_valid e
      then (s\<lparr>cron_tasks := cron_tasks s @ [\<lparr>task_expr = e, task_action = a, running = False\<rparr>]\<rparr>,
            Inr (length (cron_tasks s)))
      else (s, Inl InvalidCronExpression))"

definition set_running :: "bool \<Rightarrow> nat \<Rightarrow> system \<Rightarrow> system" where
  "set_running b task s =
     (if task < length (cron_tasks s)
      then s\<lparr>cron_tasks := (cron_tasks s)[task := (cron_tasks s ! task)\<lparr>running := b\<rparr>]\<rparr>
      else s)"

definition task_start :: "nat \<Rightarrow> system \<Rightarrow> system" where
  "task_start = set_running True"

definition task_stop :: "nat \<Rightarrow> system \<Rightarrow> system" where
  "task_stop = set_running False"

text \<open>\<^verbatim>\<open>setTimeout(() => controlRele(rele, false, reason), ms)\<close>: the callback is added
  to the armed ones; nothing is returned to the caller that keeps. A delay that is
  \<^verbatim>\<open>NaN\<close> (\<open>None\<close>), below 1 or above 2147483647 is 1.\<close>

definition timeout_delay :: "int option \<Rightarrow> int" where
  "timeout_delay ms =
     (case ms of None \<Rightarrow> 1 | Some d \<Rightarrow> if d < 1 \<or> d > 2147483647 then 1 else d)"

definition setTimeout :: "int \<Rightarrow> reason \<Rightarrow> int option \<Rightarrow> system \<Rightarrow> system" where
  "setTimeout rele r ms s =
     s\<lparr>timeouts := timeouts s @
         [\<lparr>due = now s + timeout_delay ms, t_rele = rele, t_reason = r\<rparr>]\<rparr>"

text \<open>\<^verbatim>\<open>setInterval(() => this.checkConditions(), ...)\<close>.\<close>

definition setInterval :: "system \<Rightarrow> system" where
  "setInterval s = s\<lparr>intervals := intervals s + 1\<rparr>"

subsection \<open>\<^verbatim>\<open>Scheduler\<close>: schedules\<close>

text \<open>The two locals of \<^verbatim>\<open>createCronExpression\<close>, destructured from
  \<^verbatim>\<open>schedule.start_time.split(':').map(Number)\<close>: an element past the end of the array
  is \<^verbatim>\<open>undefined\<close>.\<close>

definition element :: "jsnum list \<Rightarrow> nat \<Rightarrow> js_value" where
  "element xs i = (if i < length xs then JNumber (xs ! i) else JUndefined)"

definition startHour :: "schedule \<Rightarrow> js_value" where
  "startHour sch = element (map Number (split_on CHR '':'' (start_time sch))) 0"

definition startMinute :: "schedule \<Rightarrow> js_value" where
  "startMinute sch = element (map Number (split_on CHR '':'' (start_time sch))) 1"

definition createCronExpression :: "schedule \<Rightarrow> cron_expr" where
  "createCronExpression sch =
     (let dayOfWeek = day_of_week sch
      in \<lparr>minute_field = Field (startMinute sch), hour_field = Field (startHour sch),
          dow_field = Field (JInt dayOfWeek)\<rparr>)"

text \<open>The \<^verbatim>\<open>duration\<close> computed in \<^verbatim>\<open>executeSchedule\<close>, in seconds; \<open>None\<close> is
  \<^verbatim>\<open>NaN\<close>, the difference of an invalid date.\<close>

definition schedule_duration :: "schedule \<Rightarrow> int option" where
  "schedule_duration sch =
     (case (moment_HHmm (start_time sch), moment_HHmm (end_time sch)) of
        (Some startTime, Some endTime) \<Rightarrow>
          let duration = endTime - startTime
          in Some (if duration < 0 then duration + 24 * 60 * 60 else duration)
      | _ \<Rightarrow> None)"

definition executeSchedule :: "config \<Rightarrow> schedule \<Rightarrow> system \<Rightarrow> system" where
  "executeSchedule cfg sch s =
     (case controlRele cfg (JInt (rele_id sch)) True (ScheduleStart (start_time sch) (end_time sch)) s of
        (s1, Inr ok) \<Rightarrow>
          let s2 = setTimeout (rele_id sch) (ScheduleEnd (start_time sch) (end_time sch))
                     (map_option (\<lambda>duration. duration * 1000) (schedule_duration sch)) s1
          in saveSystemLog Info (ScheduleExecuted (sched_id sch) (rele_id sch)) ''Scheduler'' s2
      | (s1, Inl e) \<Rightarrow>
          saveSystemLog Error (ScheduleExecError (sched_id sch) e) ''Scheduler''
            (console_error (ScheduleExecError (sched_id sch) e) s1))"

definition addSchedule :: "schedule \<Rightarrow> system \<Rightarrow> system" where
  "addSchedule sch s =
     (let cronExpression = createCronExpression sch
      in case cron_schedule cronExpression (RunSchedule sch) s of
           (s1, Inr task) \<Rightarrow>
             task_start task
               (s1\<lparr>activeSchedules :=
                     AList.update (sched_id sch)
                       \<lparr>a_schedule = sch, a_task = task, a_cronExpression = cronExpression\<rparr>
                       (activeSchedules s1)\<rparr>)
         | (s1, Inl e) \<Rightarrow> console_error (AddScheduleError (sched_id sch) e) s1)"

definition loadActiveSchedules :: "system \<Rightarrow> system" where
  "loadActiveSchedules s =
     (case stored_schedules s of
        Some schedules \<Rightarrow> fold addSchedule schedules s
      | None \<Rightarrow> console_error (LoadSchedulesError QueryFailed) s)"

subsection \<open>\<^verbatim>\<open>Scheduler\<close>: conditions\<close>

definition addCondition :: "condition \<Rightarrow> system \<Rightarrow> system" where
  "addCondition c s =
     s\<lparr>activeConditions := AList.update (cond_id c) c (activeConditions s)\<rparr>"

definition loadActiveConditions :: "system \<Rightarrow> system" where
  "loadActiveConditions s =
     (case stored_conditions s of
        Some conditions \<Rightarrow> fold addCondition conditions s
      | None \<Rightarrow> console_error (LoadConditionsError QueryFailed) s)"

definition executeCondition :: "config \<Rightarrow> condition \<Rightarrow> real \<Rightarrow> system \<Rightarrow> system" where
  "executeCondition cfg c currentValue s =
     (let met = ConditionMet (condition_type c) (operator c) (threshold_value c);
          ended = ConditionEnd (condition_type c) (operator c) (threshold_value c);
          logged = saveSystemLog Info (ConditionExecuted (cond_id c) (cond_rele_id c)) ''Scheduler'';
          failed = (\<lambda>e s1. saveSystemLog Error (ConditionExecError (cond_id c) e) ''Scheduler''
                      (console_error (ConditionExecError (cond_id c) e) s1))
      in if action c = ''activate'' then
           (case controlRele cfg (JInt (cond_rele_id c)) True met s of
              (s1, Inr ok) \<Rightarrow>
                logged (if duration c > 0
                      then setTimeout (cond_rele_id c) ended (Some (duration c * 1000)) s1
                      else s1)
            | (s1, Inl e) \<Rightarrow> failed e s1)
         else if action c = ''deactivate'' then
           (case controlRele cfg (JInt (cond_rele_id c)) False met s of
              (s1, Inr ok) \<Rightarrow> logged s1
            | (s1, Inl e) \<Rightarrow> failed e s1)
         else logged s)"

text \<open>The two locals of \<^verbatim>\<open>evaluateCondition\<close>: \<open>shouldActivate\<close> is \<open>None\<close> in the
  \<^verbatim>\<open>default\<close> branch of the \<^verbatim>\<open>switch\<close>, which returns.\<close>

definition currentValue :: "condition \<Rightarrow> real \<Rightarrow> real \<Rightarrow> real" where
  "currentValue c temperature humidity =
     (if condition_type c = ''temperature'' then temperature
      else if condition_type c = ''humidity'' then humidity
      else 0)"

definition shouldActivate :: "condition \<Rightarrow> real \<Rightarrow> bool option" where
  "shouldActivate c v =
     (if operator c = ''>'' then Some (v > threshold_value c)
      else if operator c = ''<'' then Some (v < threshold_value c)
      else if operator c = ''>='' then Some (v \<ge> threshold_value c)
      else if operator c = ''<='' then Some (v \<le> threshold_value c)
      else if operator c = ''=='' then Some (\<bar>v - threshold_value c\<bar> < 0.5)
      else None)"

definition evaluateCondition :: "config \<Rightarrow> condition \<Rightarrow> real \<Rightarrow> real \<Rightarrow> system \<Rightarrow> system" where
  "evaluateCondition cfg c temperature humidity s =
     (case shouldActivate c (currentValue c temperature humidity) of
        None \<Rightarrow> console_error (UnknownOperator (operator c)) s
      | Some b \<Rightarrow>
          if b then executeCondition cfg c (currentValue c temperature humidity) s else s)"


definition startConditionChecker :: "system \<Rightarrow> system" where
  "startConditionChecker s = setInterval s"

subsection \<open>\<^verbatim>\<open>Scheduler\<close>: life cycle\<close>

definition startScheduledTasks :: "config \<Rightarrow> system \<Rightarrow> unit result" where
  "startScheduledTasks cfg s =
     (case (if backup_enabled cfg
            then (case cron_schedule
                         \<lparr>minute_field = Field (JInt 0),
                          hour_field = Field (JInt (backup_frequency cfg)), dow_field = Star\<rparr>
                         CreateBackup s of
                    (s1, Inr backupTask) \<Rightarrow>
                      ((task_start backupTask s1)
                         \<lparr>scheduledTasks := AList.update ''backup'' backupTask (scheduledTasks s1)\<rparr>,
                       Inr ())
                  | (s1, Inl e) \<Rightarrow> (s1, Inl e))
            else (s, Inr ())) of
        (s2, Inl e) \<Rightarrow> (s2, Inl e)
      | (s2, Inr u) \<Rightarrow>
          (case cron_schedule
                  \<lparr>minute_field = Field (JInt 0), hour_field = Field (JInt 2), dow_field = Star\<rparr>
                  CleanupOldLogs s2 of
             (s3, Inr logCleanupTask) \<Rightarrow>
               ((task_start logCleanupTask s3)
                  \<lparr>scheduledTasks := AList.update ''logCleanup'' logCleanupTask (scheduledTasks s3)\<rparr>,
                Inr ())
           | (s3, Inl e) \<Rightarrow> (s3, Inl e)))"

text \<open>\<^verbatim>\<open>init\<close>: the \<^verbatim>\<open>try\<close> block, then the method with its \<^verbatim>\<open>catch\<close>. The value is
  what the caller of \<^verbatim>\<open>init()\<close> gets: \<open>Inl\<close> would be an exception reaching it.\<close>

definition init_try :: "config \<Rightarrow> system \<Rightarrow> unit result" where
  "init_try cfg s =
     (let s1 = loadActiveSchedules s;
          s2 = loadActiveConditions s1
      in case startScheduledTasks cfg s2 of
           (s3, Inr u) \<Rightarrow>
             let s4 = startConditionChecker s3;
                 s5 = s4\<lparr>isRunning := True\<rparr>
             in (saveSystemLog Info SchedulerInitialized ''Scheduler'' s5, Inr ())
         | (s3, Inl e) \<Rightarrow> (s3, Inl e))"

definition init :: "config \<Rightarrow> system \<Rightarrow> unit result" where
  "init cfg s =
     (case init_try cfg s of
        (s1, Inr u) \<Rightarrow> (s1, Inr ())
      | (s1, Inl e) \<Rightarrow>
          (saveSystemLog Error (SchedulerInitError e) ''Scheduler''
             (console_error (SchedulerInitError e) s1), Inr ()))"

definition stop :: "system \<Rightarrow> system" where
  "stop s =
     (let s1 = fold (\<lambda>(name, task). task_stop task) (scheduledTasks s) s;
          s2 = s1\<lparr>activeSchedules := [], activeConditions := [], scheduledTasks := []\<rparr>;
          s3 = s2\<lparr>isRunning := False\<rparr>
      in saveSystemLog Info SchedulerStopped ''Scheduler'' s3)"

definition restart :: "config \<Rightarrow> system \<Rightarrow> unit result" where
  "restart cfg s = init cfg (stop s)"

text \<open>\<^verbatim>\<open>new Scheduler()\<close>: a database, a GPIO controller of its own, empty maps, and
  \<^verbatim>\<open>this.init()\<close>.\<close>

definition new_Scheduler :: "config \<Rightarrow> schedule list option \<Rightarrow> condition list option \<Rightarrow> system" where
  "new_Scheduler cfg scheds conds =
     fst (init cfg (GPIOController_init cfg (new_system scheds conds)))"


subsection \<open>The timers firing\<close>

text \<open>The clock reaches \<open>t\<close>: the armed \<^verbatim>\<open>setTimeout\<close> callbacks that are due run,
  earliest first, and leave the queue. An exception in a callback has no handler; the
  state is the one at the throw.\<close>

definition run_timeout :: "config \<Rightarrow> timeout \<Rightarrow> system \<Rightarrow> system" where
  "run_timeout cfg tm s = fst (controlRele cfg (JInt (t_rele tm)) False (t_reason tm) s)"

definition advance_clock :: "config \<Rightarrow> int \<Rightarrow> system \<Rightarrow> system" where
  "advance_clock cfg t s =
     (let dues = sort_key due (filter (\<lambda>tm. due tm \<le> t) (timeouts s));
          s1 = s\<lparr>timeouts := filter (\<lambda>tm. \<not> due tm \<le> t) (timeouts s), now := t\<rparr>
      in fold (run_timeout cfg) dues s1)"

text \<open>A minute of the wall clock (day of week, hour, minute) begins: every running cron
  task whose expression names it calls its callback. Only the callbacks of schedules
  are followed; the two housekeeping callbacks touch neither relays nor timers.\<close>

definition field_matches :: "cron_field \<Rightarrow> int \<Rightarrow> bool" where
  "field_matches f v =
     (case f of Star \<Rightarrow> True | Field (JNumber (Num r)) \<Rightarrow> r = real_of_int v | Field _ \<Rightarrow> False)"

definition cron_matches :: "cron_expr \<Rightarrow> int \<times> int \<times> int \<Rightarrow> bool" where
  "cron_matches e = (\<lambda>(dow, hour, minute).
     field_matches (minute_field e) minute \<and> field_matches (hour_field e) hour \<and>
     field_matches (dow_field e) dow)"

definition run_task :: "config \<Rightarrow> cron_task \<Rightarrow> system \<Rightarrow> system" where
  "run_task cfg task s =
     (case task_action task of RunSchedule sch \<Rightarrow> executeSchedule cfg sch s | _ \<Rightarrow> s)"

definition cron_tick :: "config \<Rightarrow> int \<times> int \<times> int \<Rightarrow> system \<Rightarrow> system" where
  "cron_tick cfg w s =
     fold (run_task cfg) (filter (\<lambda>task. running task \<and> cron_matches (task_expr task) w) (cron_tasks s)) s"

text \<open>The live triggers of a schedule: the running cron tasks that call
  \<^verbatim>\<open>executeSchedule\<close> on it. The pending deactivations of a relay: the armed callbacks
  that will switch it off.\<close>

definition live_triggers :: "schedule \<Rightarrow> system \<Rightarrow> cron_task list" where
  "live_triggers sch s =
     filter (\<lambda>task. running task \<and> task_action task = RunSchedule sch) (cron_tasks s)"

definition pending_deactivations :: "int \<Rightarrow> system \<Rightarrow> timeout list" where
  "pending_deactivations rele s = filter (\<lambda>tm. t_rele tm = rele) (timeouts s)"


subsection \<open>Example rules and configurations\<close>

text \<open>The shipped configuration with a backup every 6 hours, so that the backup task's
  expression names a valid hour.\<close>

definition config_6h :: config where
  "config_6h = config_js\<lparr>backup_frequency := 6\<rparr>"

definition sched_mon :: schedule where
  "sched_mon = \<lparr>sched_id = 1, rele_id = 1, day_of_week = 1,
     start_time = ''08:00'', end_time = ''18:00''\<rparr>"

definition sched_night :: schedule where
  "sched_night = \<lparr>sched_id = 2, rele_id = 3, day_of_week = 5,
     start_time = ''22:00'', end_time = ''06:30''\<rparr>"

definition sched_same :: schedule where
  "sched_same = \<lparr>sched_id = 3, rele_id = 1, day_of_week = 1,
     start_time = ''08:00'', end_time = ''08:00''\<rparr>"

definition sched_bad_hour :: schedule where
  "sched_bad_hour = \<lparr>sched_id = 4, rele_id = 1, day_of_week = 1,
     start_time = ''25:00'', end_time = ''18:00''\<rparr>"

definition sched_bad_minute :: schedule where
  "sched_bad_minute = \<lparr>sched_id = 5, rele_id = 1, day_of_week = 1,
     start_time = ''08:75'', end_time = ''18:00''\<rparr>"

definition sched_hour_only :: schedule where
  "sched_hour_only = \<lparr>sched_id = 6, rele_id = 1, day_of_week = 1,
     start_time = ''25'', end_time = ''18:00''\<rparr>"

definition cond_hot :: condition where
  "cond_hot = \<lparr>cond_id = 1, cond_rele_id = 1, condition_type = ''temperature'',
     threshold_value = 30, operator = ''>'', action = ''activate'', duration = 900\<rparr>"

definition cond_eq25 :: condition where
  "cond_eq25 = \<lparr>cond_id = 2, cond_rele_id = 2, condition_type = ''temperature'',
     threshold_value = 25, operator = ''=='', action = ''activate'', duration = 0\<rparr>"



section \<open>Properties\<close>

subsection \<open>Integers as JavaScript values\<close>

lemma is_integer_of_int: "is_integer (real_of_int n)"
  by (simp add: is_integer_def)

lemma ToNumber_JInt: "ToNumber (JInt n) = Num (real_of_int n)"
  by (simp add: ToNumber_def JInt_def)

lemma array_index_JInt:
  "1 \<le> n \<Longrightarrow> array_index (minus_one (ToNumber (JInt n))) = Some (nat (n - 1))"
proof -
  assume n: "1 \<le> n"
  have e: "real_of_int n - 1 = real_of_int (n - 1)" by simp
  have a: "is_integer (real_of_int (n - 1))" by (rule is_integer_of_int)
  have b: "0 \<le> real_of_int (n - 1)" using n by simp
  have c: "\<lfloor>real_of_int (n - 1)\<rfloor> = n - 1" by (rule floor_of_int)
  have "array_index (Num (real_of_int (n - 1))) = Some (nat (n - 1))"
    unfolding array_index_def using a b c by (simp del: of_int_diff)
  then show ?thesis
    by (simp only: ToNumber_JInt minus_one_def jsnum.case e)
qed

lemma guard_JInt:
  "(js_less (ToNumber (JInt n)) (Num 1) \<or> js_less (Num 4) (ToNumber (JInt n))) = (n < 1 \<or> n > 4)"
  by (simp add: ToNumber_JInt js_less_def)

text \<open>\<open>controlRele\<close> on an integer id.\<close>

lemma controlRele_JInt:
  "controlRele cfg (JInt releId) st r s =
     (if releId < 1 \<or> releId > 4 then (s, Inl InvalidReleId)
      else
        let pinIndex = nat (releId - 1);
            pin = pin_at cfg pinIndex;
            pinState = (if releActiveLow cfg then (if st then LOW else HIGH)
                        else (if st then HIGH else LOW))
        in case rpio_write pin pinState s of
             (s1, Inr u) \<Rightarrow>
               (saveSystemLog Info (ReleSwitched (JInt releId) st r) ''GPIOController''
                  (saveReleState (JInt releId) st r
                     (s1\<lparr>releStates := (releStates s1)[pinIndex := st]\<rparr>)), Inr True)
           | (s1, Inl e) \<Rightarrow>
               (saveSystemLog Error (ReleControlError (JInt releId) e) ''GPIOController''
                  (console_error (ReleControlError (JInt releId) e) s1), Inr False))"
proof (cases "releId < 1 \<or> releId > 4")
  case True
  then show ?thesis
    using guard_JInt [of releId] by (simp add: controlRele_def)
next
  case False
  then have i: "array_index (minus_one (ToNumber (JInt releId))) = Some (nat (releId - 1))"
    by (simp add: array_index_JInt)
  show ?thesis
    using False guard_JInt [of releId] i
    by (simp add: controlRele_def Let_def split: prod.splits sum.splits)
qed


subsection \<open>What a method leaves alone\<close>

lemma controlRele_frame:
  "timeouts (fst (controlRele cfg releId st r s)) = timeouts s \<and>
   now (fst (controlRele cfg releId st r s)) = now s \<and>
   cron_tasks (fst (controlRele cfg releId st r s)) = cron_tasks s \<and>
   intervals (fst (controlRele cfg releId st r s)) = intervals s"
  by (simp add: controlRele_def rpio_write_def Let_def saveSystemLog_def saveReleState_def
      console_error_def split: prod.splits sum.splits option.splits)

lemma controlRele_valid_returns:
  "1 \<le> releId \<Longrightarrow> releId \<le> 4 \<Longrightarrow> \<exists>ok. snd (controlRele cfg (JInt releId) st r s) = Inr ok"
  by (auto simp: controlRele_JInt rpio_write_def Let_def)

lemma controlRele_valid_write:
  "1 \<le> releId \<Longrightarrow> releId \<le> 4 \<Longrightarrow>
   pin_writes (fst (controlRele cfg (JInt releId) st r s)) =
     pin_writes s @ [(pin_at cfg (nat (releId - 1)), if releActiveLow cfg = st then LOW else HIGH)]"
  by (auto simp: controlRele_JInt rpio_write_def Let_def saveSystemLog_def saveReleState_def
      console_error_def)

lemma executeSchedule_timeouts:
  assumes "1 \<le> rele_id sch" and "rele_id sch \<le> 4"
  shows "timeouts (executeSchedule cfg sch s) = timeouts s @
           [\<lparr>due = now s + timeout_delay (map_option (\<lambda>d. d * 1000) (schedule_duration sch)),
             t_rele = rele_id sch,
             t_reason = ScheduleEnd (start_time sch) (end_time sch)\<rparr>]"
proof -
  let ?r = "ScheduleStart (start_time sch) (end_time sch)"
  obtain s1 ok where c: "controlRele cfg (JInt (rele_id sch)) True ?r s = (s1, Inr ok)"
    using controlRele_valid_returns [OF assms, of cfg True ?r s]
    by (metis prod.collapse)
  have "timeouts s1 = timeouts s \<and> now s1 = now s"
    using controlRele_frame [of cfg "JInt (rele_id sch)" True ?r s] c by simp
  then show ?thesis
    using c by (simp add: executeSchedule_def setTimeout_def saveSystemLog_def Let_def)
qed

lemma executeSchedule_now: "now (executeSchedule cfg sch s) = now s"
proof -
  let ?r = "ScheduleStart (start_time sch) (end_time sch)"
  obtain s1 res where c: "controlRele cfg (JInt (rele_id sch)) True ?r s = (s1, res)"
    by (cases "controlRele cfg (JInt (rele_id sch)) True ?r s")
  have "now s1 = now s"
    using controlRele_frame [of cfg "JInt (rele_id sch)" True ?r s] c by simp
  then show ?thesis
    using c
    by (simp add: executeSchedule_def setTimeout_def saveSystemLog_def console_error_def Let_def
        split: sum.splits)
qed

lemma executeCondition_timeouts:
  assumes "1 \<le> cond_rele_id c" and "cond_rele_id c \<le> 4"
    and "action c = ''activate''" and "duration c > 0"
  shows "timeouts (executeCondition cfg c v s) = timeouts s @
           [\<lparr>due = now s + timeout_delay (Some (duration c * 1000)),
             t_rele = cond_rele_id c,
             t_reason = ConditionEnd (condition_type c) (operator c) (threshold_value c)\<rparr>]"
proof -
  let ?r = "ConditionMet (condition_type c) (operator c) (threshold_value c)"
  obtain s1 ok where c: "controlRele cfg (JInt (cond_rele_id c)) True ?r s = (s1, Inr ok)"
    using controlRele_valid_returns [OF assms(1,2), of cfg True ?r s]
    by (metis prod.collapse)
  have "timeouts s1 = timeouts s \<and> now s1 = now s"
    using controlRele_frame [of cfg "JInt (cond_rele_id c)" True ?r s] c by simp
  then show ?thesis
    using c assms(3,4)
    by (simp add: executeCondition_def setTimeout_def saveSystemLog_def Let_def)
qed

lemma stop_tasks_frame:
  "length (cron_tasks (fold (\<lambda>(name, task). task_stop task) xs s)) = length (cron_tasks s) \<and>
   releStates (fold (\<lambda>(name, task). task_stop task) xs s) = releStates s \<and>
   pin_writes (fold (\<lambda>(name, task). task_stop task) xs s) = pin_writes s \<and>
   rele_states (fold (\<lambda>(name, task). task_stop task) xs s) = rele_states s \<and>
   system_logs (fold (\<lambda>(name, task). task_stop task) xs s) = system_logs s \<and>
   stored_schedules (fold (\<lambda>(name, task). task_stop task) xs s) = stored_schedules s \<and>
   stored_conditions (fold (\<lambda>(name, task). task_stop task) xs s) = stored_conditions s \<and>
   timeouts (fold (\<lambda>(name, task). task_stop task) xs s) = timeouts s"
  by (induction xs arbitrary: s) (auto simp: task_stop_def set_running_def)

lemma stop_frame:
  "releStates (stop s) = releStates s \<and> pin_writes (stop s) = pin_writes s \<and>
   rele_states (stop s) = rele_states s \<and> timeouts (stop s) = timeouts s"
  using stop_tasks_frame [of "scheduledTasks s" s]
  by (simp add: stop_def Let_def saveSystemLog_def)

lemma addSchedule_frame:
  "timeouts (addSchedule sch s) = timeouts s \<and> pin_writes (addSchedule sch s) = pin_writes s \<and>
   system_logs (addSchedule sch s) = system_logs s \<and>
   activeConditions (addSchedule sch s) = activeConditions s \<and>
   stored_conditions (addSchedule sch s) = stored_conditions s \<and>
   set (console_errors s) \<subseteq> set (console_errors (addSchedule sch s))"
  by (auto simp: addSchedule_def cron_schedule_def Let_def task_start_def set_running_def
      console_error_def)

lemma fold_addSchedule_frame:
  "timeouts (fold addSchedule xs s) = timeouts s \<and>
   pin_writes (fold addSchedule xs s) = pin_writes s \<and>
   system_logs (fold addSchedule xs s) = system_logs s \<and>
   activeConditions (fold addSchedule xs s) = activeConditions s \<and>
   stored_conditions (fold addSchedule xs s) = stored_conditions s \<and>
   set (console_errors s) \<subseteq> set (console_errors (fold addSchedule xs s))"
proof (induction xs arbitrary: s)
  case Nil
  then show ?case by simp
next
  case (Cons x xs)
  show ?case
    using Cons.IH [of "addSchedule x s"] addSchedule_frame [of x s] by auto
qed

lemma loadActiveSchedules_frame:
  "timeouts (loadActiveSchedules s) = timeouts s \<and>
   pin_writes (loadActiveSchedules s) = pin_writes s \<and>
   system_logs (loadActiveSchedules s) = system_logs s \<and>
   activeConditions (loadActiveSchedules s) = activeConditions s \<and>
   stored_conditions (loadActiveSchedules s) = stored_conditions s \<and>
   set (console_errors s) \<subseteq> set (console_errors (loadActiveSchedules s))"
proof (cases "stored_schedules s")
  case None
  then show ?thesis by (auto simp: loadActiveSchedules_def console_error_def)
next
  case (Some xs)
  then show ?thesis
    using fold_addSchedule_frame [of xs s] by (simp add: loadActiveSchedules_def)
qed

lemma addCondition_frame:
  "cron_tasks (fold addCondition cs s) = cron_tasks s \<and>
   scheduledTasks (fold addCondition cs s) = scheduledTasks s \<and>
   system_logs (fold addCondition cs s) = system_logs s \<and>
   console_errors (fold addCondition cs s) = console_errors s \<and>
   activeSchedules (fold addCondition cs s) = activeSchedules s \<and>
   timeouts (fold addCondition cs s) = timeouts s \<and>
   pin_writes (fold addCondition cs s) = pin_writes s \<and>
   isRunning (fold addCondition cs s) = isRunning s"
  by (induction cs arbitrary: s) (auto simp: addCondition_def)

lemma loadActiveConditions_frame:
  "cron_tasks (loadActiveConditions s) = cron_tasks s \<and>
   scheduledTasks (loadActiveConditions s) = scheduledTasks s \<and>
   system_logs (loadActiveConditions s) = system_logs s \<and>
   set (console_errors s) \<subseteq> set (console_errors (loadActiveConditions s)) \<and>
   activeSchedules (loadActiveConditions s) = activeSchedules s \<and>
   timeouts (loadActiveConditions s) = timeouts s \<and>
   pin_writes (loadActiveConditions s) = pin_writes s"
  using addCondition_frame
  by (auto simp: loadActiveConditions_def console_error_def split: option.splits)

lemma startScheduledTasks_frame:
  "timeouts (fst (startScheduledTasks cfg s)) = timeouts s \<and>
   pin_writes (fst (startScheduledTasks cfg s)) = pin_writes s \<and>
   system_logs (fst (startScheduledTasks cfg s)) = system_logs s \<and>
   console_errors (fst (startScheduledTasks cfg s)) = console_errors s \<and>
   activeSchedules (fst (startScheduledTasks cfg s)) = activeSchedules s \<and>
   activeConditions (fst (startScheduledTasks cfg s)) = activeConditions s"
  by (auto simp: startScheduledTasks_def cron_schedule_def task_start_def set_running_def
      split: prod.splits sum.splits)

lemma valid_field_JInt: "valid_field lo hi (Field (JInt n)) = (lo \<le> n \<and> n \<le> hi)"
  by (simp add: valid_field_def JInt_def is_integer_of_int)

lemma startScheduledTasks_ok:
  assumes "\<not> backup_enabled cfg \<or> 0 \<le> backup_frequency cfg \<and> backup_frequency cfg \<le> 23"
  shows "snd (startScheduledTasks cfg s) = Inr ()"
  using assms
  by (auto simp: startScheduledTasks_def cron_schedule_def cron_valid_def valid_field_JInt)

lemma init_frame:
  "timeouts (fst (init cfg s)) = timeouts s \<and> pin_writes (fst (init cfg s)) = pin_writes s"
proof -
  let ?s2 = "loadActiveConditions (loadActiveSchedules s)"
  have a: "timeouts ?s2 = timeouts s \<and> pin_writes ?s2 = pin_writes s"
    using loadActiveSchedules_frame [of s] loadActiveConditions_frame [of "loadActiveSchedules s"]
    by simp
  obtain s3 res where r: "startScheduledTasks cfg ?s2 = (s3, res)"
    by (cases "startScheduledTasks cfg ?s2")
  have b: "timeouts s3 = timeouts ?s2 \<and> pin_writes s3 = pin_writes ?s2"
    using startScheduledTasks_frame [of cfg ?s2] r by simp
  show ?thesis
    using a b r
    by (simp add: init_def init_try_def Let_def saveSystemLog_def console_error_def
        startConditionChecker_def setInterval_def split: sum.splits)
qed

lemma init_returns: "snd (init cfg s) = Inr ()"
  by (simp add: init_def split: prod.splits sum.splits)

lemma run_timeout_valid:
  assumes "1 \<le> t_rele tm" and "t_rele tm \<le> 4"
  shows "pin_writes (run_timeout cfg tm s) =
           pin_writes s @ [(pin_at cfg (nat (t_rele tm - 1)), if releActiveLow cfg then HIGH else LOW)]"
  using controlRele_valid_write [OF assms, of cfg False "t_reason tm" s]
  by (simp add: run_timeout_def)

lemma run_timeout_timeouts: "timeouts (run_timeout cfg tm s) = timeouts s"
  using controlRele_frame [of cfg "JInt (t_rele tm)" False "t_reason tm" s]
  by (simp add: run_timeout_def)

lemma fold_run_timeout:
  assumes "\<forall>tm \<in> set tms. 1 \<le> t_rele tm \<and> t_rele tm \<le> 4"
  shows "pin_writes (fold (run_timeout cfg) tms s) =
           pin_writes s @ map (\<lambda>tm. (pin_at cfg (nat (t_rele tm - 1)),
                                      if releActiveLow cfg then HIGH else LOW)) tms \<and>
         timeouts (fold (run_timeout cfg) tms s) = timeouts s"
  using assms
proof (induction tms arbitrary: s)
  case Nil
  then show ?case by simp
next
  case (Cons tm tms)
  have v: "1 \<le> t_rele tm" "t_rele tm \<le> 4" using Cons.prems by simp_all
  have rest: "\<forall>tm \<in> set tms. 1 \<le> t_rele tm \<and> t_rele tm \<le> 4" using Cons.prems by simp
  show ?case
    using Cons.IH [OF rest, of "run_timeout cfg tm s"] run_timeout_valid [OF v, of cfg s]
      run_timeout_timeouts [of cfg tm s]
    by simp
qed

text \<open>The clock reaches \<open>t\<close>: every armed callback that is due writes the pin of its
  relay with the level that switches it off, earliest first, and the others stay
  armed.\<close>

lemma advance_clock_fires:
  assumes "\<forall>tm \<in> set (timeouts s). 1 \<le> t_rele tm \<and> t_rele tm \<le> 4"
  shows "pin_writes (advance_clock cfg t s) =
           pin_writes s @ map (\<lambda>tm. (pin_at cfg (nat (t_rele tm - 1)),
                                      if releActiveLow cfg then HIGH else LOW))
                              (sort_key due (filter (\<lambda>tm. due tm \<le> t) (timeouts s))) \<and>
         timeouts (advance_clock cfg t s) = filter (\<lambda>tm. \<not> due tm \<le> t) (timeouts s)"
proof -
  let ?dues = "sort_key due (filter (\<lambda>tm. due tm \<le> t) (timeouts s))"
  let ?s1 = "s\<lparr>timeouts := filter (\<lambda>tm. \<not> due tm \<le> t) (timeouts s), now := t\<rparr>"
  have v: "\<forall>tm \<in> set ?dues. 1 \<le> t_rele tm \<and> t_rele tm \<le> 4"
    using assms by simp
  show ?thesis
    using fold_run_timeout [OF v, of cfg ?s1] by (simp add: advance_clock_def Let_def)
qed

lemma dec_value_foldl_nonneg:
  "list_all is_digit ds \<Longrightarrow> 0 \<le> n \<Longrightarrow>
   0 \<le> foldl (\<lambda>n c. 10 * n + (int (of_char c) - 48)) n ds"
  by (induction ds arbitrary: n) (auto simp: is_digit_def)

lemma dec_value_nonneg: "list_all is_digit ds \<Longrightarrow> 0 \<le> dec_value ds"
  by (simp add: dec_value_def dec_value_foldl_nonneg)

lemma moment_HHmm_range:
  "moment_HHmm txt = Some T \<Longrightarrow> 0 \<le> T \<and> T < 86400"
  by (auto simp: moment_HHmm_def split: list.splits if_splits dest!: dec_value_nonneg)

lemma set_running_actions:
  "map task_action (cron_tasks (set_running b task s)) = map task_action (cron_tasks s)"
  by (simp add: set_running_def map_update list_update_same_conv)

lemma addSchedule_actions:
  "map task_action (cron_tasks (addSchedule sch s)) =
     map task_action (cron_tasks s) @
       (if cron_valid (createCronExpression sch) then [RunSchedule sch] else [])"
  by (simp add: addSchedule_def cron_schedule_def Let_def task_start_def set_running_actions
      console_error_def)

lemma fold_addSchedule_actions:
  "map task_action (cron_tasks (fold addSchedule xs s)) =
     map task_action (cron_tasks s) @
       map RunSchedule (filter (\<lambda>sch. cron_valid (createCronExpression sch)) xs)"
  by (induction xs arbitrary: s) (simp_all add: addSchedule_actions)

lemma loadActiveSchedules_actions:
  "set (map task_action (cron_tasks (loadActiveSchedules s))) \<subseteq>
     set (map task_action (cron_tasks s)) \<union>
       {RunSchedule sch | sch. cron_valid (createCronExpression sch)}"
proof (cases "stored_schedules s")
  case None
  then show ?thesis by (simp add: loadActiveSchedules_def console_error_def)
next
  case (Some xs)
  have "set (map RunSchedule (filter (\<lambda>sch. cron_valid (createCronExpression sch)) xs))
      \<subseteq> {RunSchedule sch | sch. cron_valid (createCronExpression sch)}"
    by auto
  moreover have "map task_action (cron_tasks (loadActiveSchedules s)) =
      map task_action (cron_tasks s) @
        map RunSchedule (filter (\<lambda>sch. cron_valid (createCronExpression sch)) xs)"
    using Some by (simp add: loadActiveSchedules_def fold_addSchedule_actions)
  ultimately show ?thesis
    by (simp only: set_append) blast
qed


subsection \<open>Reading a start time written as digits, a colon, digits\<close>

lemma split_on_none: "c \<notin> set xs \<Longrightarrow> split_on c xs = [xs]"
  by (induction xs) auto

lemma split_on_first: "c \<notin> set xs \<Longrightarrow> split_on c (xs @ c # ys) = xs # split_on c ys"
  by (induction xs) auto

lemma digits_no_colon: "list_all is_digit ds \<Longrightarrow> CHR '':'' \<notin> set ds"
  by (induction ds) (auto simp: is_digit_def)

lemma digit_not_space: "is_digit c \<Longrightarrow> \<not> is_space c"
  by (auto simp: is_digit_def is_space_def)

lemma digits_trim: "list_all is_digit ds \<Longrightarrow> trim ds = ds"
proof -
  assume d: "list_all is_digit ds"
  have a: "dropWhile is_space ds = ds"
    using d by (cases ds) (auto dest: digit_not_space)
  have r: "list_all is_digit (rev ds)" using d by (simp add: list_all_iff)
  have b: "dropWhile is_space (rev ds) = rev ds"
    using r by (cases "rev ds") (auto dest: digit_not_space)
  show ?thesis by (simp add: trim_def a b)
qed

lemma digits_unsigned_decimal:
  assumes "ds \<noteq> []" and "list_all is_digit ds"
  shows "unsigned_decimal ds = Some (Num (real_of_int (dec_value ds)))"
proof -
  have i: "ds \<noteq> ''Infinity''"
    using assms(2) by (auto simp: is_digit_def)
  have t: "takeWhile is_digit ds = ds" "dropWhile is_digit ds = []"
    using assms(2) by (simp_all add: list_all_iff)
  show ?thesis
    using assms(1) i
    by (simp add: unsigned_decimal_def Let_def exponent_part_def scale10_def t)
qed

lemma Number_digits:
  assumes "ds \<noteq> []" and "list_all is_digit ds"
  shows "Number ds = Num (real_of_int (dec_value ds))"
proof -
  obtain c cs where ds: "ds = c # cs" using assms(1) by (cases ds) auto
  have c: "is_digit c" using assms(2) ds by simp
  have h: "cs \<noteq> [] \<Longrightarrow> is_digit (hd cs)" using assms(2) ds by (cases cs) auto
  have n1: "c \<noteq> CHR ''+''" "c \<noteq> CHR ''-''" using c by (auto simp: is_digit_def)
  have n2: "cs \<noteq> [] \<Longrightarrow> hd cs \<noteq> CHR ''x'' \<and> hd cs \<noteq> CHR ''X'' \<and> hd cs \<noteq> CHR ''o'' \<and>
      hd cs \<noteq> CHR ''O'' \<and> hd cs \<noteq> CHR ''b'' \<and> hd cs \<noteq> CHR ''B''"
    using h by (auto simp: is_digit_def)
  have u: "unsigned_decimal (c # cs) = Some (Num (real_of_int (dec_value ds)))"
    using digits_unsigned_decimal [OF assms] ds by simp
  have "trim ds = c # cs" using digits_trim [OF assms(2)] ds by simp
  then show ?thesis
    using n1 n2 u by (auto simp: Number_def of_option_def)
qed

lemma start_time_digits:
  assumes "hh \<noteq> []" and "list_all is_digit hh" and "mm \<noteq> []" and "list_all is_digit mm"
    and "start_time sch = hh @ '':'' @ mm"
  shows "startHour sch = JInt (dec_value hh) \<and> startMinute sch = JInt (dec_value mm)"
proof -
  have "split_on CHR '':'' (hh @ CHR '':'' # mm) = [hh, mm]"
    using split_on_first [of "CHR '':''" hh mm] split_on_none [of "CHR '':''" mm]
      digits_no_colon [OF assms(2)] digits_no_colon [OF assms(4)]
    by simp
  then have "map Number (split_on CHR '':'' (start_time sch)) =
      [Num (real_of_int (dec_value hh)), Num (real_of_int (dec_value mm))]"
    using assms(5) Number_digits [OF assms(1,2)] Number_digits [OF assms(3,4)] by simp
  then show ?thesis
    by (simp add: startHour_def startMinute_def element_def JInt_def)
qed


subsection \<open>Relays\<close>

text \<open>
  Claim C7. A transition attempt on a relay 1 to 4 writes the pin exactly once and
  appends exactly one entry to the system log, whether the write succeeds or throws.
  When the write throws, the entry has level \<open>Error\<close>, \<open>releStates\<close> and the
  \<^verbatim>\<open>rele_states\<close> table are as before, and the call returns false. When it succeeds,
  the entry has level \<open>Info\<close>, \<open>releStates\<close> holds the commanded level at index
  \<open>releId - 1\<close>, and the call returns true. The pin is written once in both cases:
  nothing is retried.
\<close>

theorem controlRele_transition:
  assumes "1 \<le> releId" and "releId \<le> 4"
  shows "case controlRele cfg (JInt releId) st r s of (s', res) \<Rightarrow>
     (let i = nat (releId - 1); pin = pin_at cfg i;
          lv = (if releActiveLow cfg = st then LOW else HIGH)
      in pin_writes s' = pin_writes s @ [(pin, lv)] \<and>
         (if pin \<in> set (faulty_pins s)
          then res = Inr False \<and> releStates s' = releStates s \<and>
               rele_states s' = rele_states s \<and>
               system_logs s' = system_logs s @
                 [\<lparr>level = Error, msg = ReleControlError (JInt releId) PinWriteFailed,
                   source = ''GPIOController''\<rparr>]
          else res = Inr True \<and> releStates s' = (releStates s)[i := st] \<and>
               rele_states s' = rele_states s @
                 [\<lparr>row_rele_id = JInt releId, row_state = st, row_reason = r\<rparr>] \<and>
               system_logs s' = system_logs s @
                 [\<lparr>level = Info, msg = ReleSwitched (JInt releId) st r,
                   source = ''GPIOController''\<rparr>]))"
  using assms
  by (auto simp: controlRele_JInt rpio_write_def Let_def saveSystemLog_def saveReleState_def
      console_error_def)

text \<open>Relay 2 (pin 3) of the shipped configuration, switched on with the pin faulty
  and with the pin sound.\<close>

theorem controlRele_transition_witness:
  "(case controlRele config_js (JInt 2) True ManualControl
          ((new_system None None)\<lparr>faulty_pins := [Some 3]\<rparr>)
    of (s', res) \<Rightarrow> res = Inr False \<and> releStates s' = [False, False, False, False] \<and>
        pin_writes s' = [(Some 3, LOW)] \<and> map level (system_logs s') = [Error]) \<and>
   (case controlRele config_js (JInt 2) True ManualControl (new_system None None)
    of (s', res) \<Rightarrow> res = Inr True \<and> releStates s' = [False, True, False, False] \<and>
        pin_writes s' = [(Some 3, LOW)] \<and> map level (system_logs s') = [Info])"
  using controlRele_transition [where releId = 2 and cfg = config_js and st = True
          and r = ManualControl and s = "(new_system None None)\<lparr>faulty_pins := [Some 3]\<rparr>"]
        controlRele_transition [where releId = 2 and cfg = config_js and st = True
          and r = ManualControl and s = "new_system None None"]
  by (simp add: new_system_def config_js_def pin_at_def Let_def split: prod.splits)

text \<open>A relay id that is a number below 1 or above 4 (or a text or boolean that reads as
  one, or \<^verbatim>\<open>null\<close>, which reads as 0) makes both methods throw with the state as it
  was; for an integer from 1 to 4, \<open>getReleState\<close> returns entry \<open>releId - 1\<close> of
  an array of four.\<close>

lemma numeric_releId_out_of_range_throws:
  "(ToNumber releId = Num x \<and> (x < 1 \<or> x > 4) \<longrightarrow>
      controlRele cfg releId st r s = (s, Inl InvalidReleId) \<and>
      getReleState releId s = (s, Inl InvalidReleId)) \<and>
   (1 \<le> n \<and> n \<le> 4 \<and> length (releStates s) = 4 \<longrightarrow>
      getReleState (JInt n) s = (s, Inr (Some (releStates s ! nat (n - 1)))))"
proof -
  have a: "ToNumber releId = Num x \<and> (x < 1 \<or> x > 4) \<longrightarrow>
      controlRele cfg releId st r s = (s, Inl InvalidReleId) \<and>
      getReleState releId s = (s, Inl InvalidReleId)"
    by (auto simp: controlRele_def getReleState_def js_less_def)
  have b: "1 \<le> n \<and> n \<le> 4 \<and> length (releStates s) = 4 \<longrightarrow>
      getReleState (JInt n) s = (s, Inr (Some (releStates s ! nat (n - 1))))"
  proof
    assume h: "1 \<le> n \<and> n \<le> 4 \<and> length (releStates s) = 4"
    then have i: "array_index (minus_one (ToNumber (JInt n))) = Some (nat (n - 1))"
      by (simp add: array_index_JInt)
    show "getReleState (JInt n) s = (s, Inr (Some (releStates s ! nat (n - 1))))"
      using h i guard_JInt [of n] by (auto simp: getReleState_def Let_def)
  qed
  from a b show ?thesis by blast
qed

text \<open>
  Claim C10, evaluated. The guard of both methods compares the id as a number, and a
  comparison with \<^verbatim>\<open>NaN\<close> is false. So when the relay id is \<^verbatim>\<open>undefined\<close>, \<^verbatim>\<open>NaN\<close>
  or a text that is not a number, which is outside 1 to 4, neither method throws:
  \<open>controlRele\<close> goes on to call \<^verbatim>\<open>rpio.write\<close> with an undefined pin and returns
  true or false as that call fares, and \<open>getReleState\<close> returns the property of the
  array under the key \<^verbatim>\<open>NaN\<close>.
\<close>

theorem releId_not_a_number_passes_guard:
  "snd (controlRele cfg JUndefined st r s) = Inr (None \<notin> set (faulty_pins s)) \<and>
   pin_writes (fst (controlRele cfg JUndefined st r s)) =
     pin_writes s @ [(None, if releActiveLow cfg = st then LOW else HIGH)] \<and>
   snd (controlRele cfg (JNumber NaN) st r s) = Inr (None \<notin> set (faulty_pins s)) \<and>
   snd (controlRele cfg (JString ''abc'') st r s) = Inr (None \<notin> set (faulty_pins s)) \<and>
   pin_writes (fst (controlRele cfg (JString ''abc'') st r s)) =
     pin_writes s @ [(None, if releActiveLow cfg = st then LOW else HIGH)] \<and>
   getReleState JUndefined s = (s, Inr (map_of (releStates_props s) NaN)) \<and>
   getReleState (JString ''abc'') s = (s, Inr (map_of (releStates_props s) NaN))"
proof -
  have n: "Number ''abc'' = NaN" by code_simp
  have t: "ToNumber JUndefined = NaN" "ToNumber (JNumber NaN) = NaN" "ToNumber (JString ''abc'') = NaN"
    using n by (simp_all add: ToNumber_def)
  have g: "\<not> js_less NaN (Num 1)" "\<not> js_less (Num 4) NaN"
    by (simp_all add: js_less_def)
  have i: "array_index (minus_one NaN) = None"
    by (simp add: array_index_def minus_one_def)
  have k: "minus_one NaN = NaN" by (simp add: minus_one_def)
  show ?thesis
    using t g i k
    by (auto simp: controlRele_def getReleState_def rpio_write_def Let_def saveSystemLog_def
        saveReleState_def console_error_def)
qed

subsection \<open>Conditions\<close>

text \<open>
  Claim C9. For a condition with operator \<^verbatim>\<open>==\<close>, \<open>evaluateCondition\<close> executes
  the condition's action exactly when the current value is less than 0.5 away from the
  threshold. With threshold 25, the value 25.4 makes the condition true and the value
  25.6 makes it false.
\<close>

theorem equality_tolerance_band:
  "operator c = ''=='' \<longrightarrow>
     shouldActivate c v = Some (\<bar>v - threshold_value c\<bar> < 1 / 2) \<and>
     evaluateCondition cfg c temperature humidity s =
       (if \<bar>currentValue c temperature humidity - threshold_value c\<bar> < 1 / 2
        then executeCondition cfg c (currentValue c temperature humidity) s else s) \<and>
     (threshold_value c = 25 \<longrightarrow>
        shouldActivate c 25.4 = Some True \<and> shouldActivate c 25.6 = Some False)"
  by (simp add: shouldActivate_def evaluateCondition_def)

text \<open>Threshold 25 on the temperature: a sample of 25.6 degrees leaves the state as it
  is.\<close>

theorem equality_tolerance_band_witness:
  "shouldActivate cond_eq25 25.4 = Some True \<and> shouldActivate cond_eq25 25.6 = Some False \<and>
   evaluateCondition config_js cond_eq25 25.6 60 (new_system None None) = new_system None None"
  using equality_tolerance_band [where c = cond_eq25 and v = 0 and cfg = config_js
      and temperature = "25.6" and humidity = 60 and s = "new_system None None"]
  by (simp add: cond_eq25_def currentValue_def)




subsection \<open>Schedules\<close>

text \<open>
  Claim C4, as the code has it. For a schedule whose start time T1 and end time T2 are
  times of day (in seconds), the duration computed by \<open>executeSchedule\<close> is T2 - T1
  when T2 is not before T1, and (24h - T1) + T2 when T2 is before T1; that is,
  (T2 - T1) mod 24h. Equal times give 0, not 24 hours. When the times differ and the
  relay is one of 1 to 4, the deactivation armed last is due that many seconds after
  the call.
\<close>

theorem schedule_duration_wraps:
  assumes "moment_HHmm (start_time sch) = Some T1" and "moment_HHmm (end_time sch) = Some T2"
  shows "schedule_duration sch = Some (if T2 \<ge> T1 then T2 - T1 else (86400 - T1) + T2) \<and>
         schedule_duration sch = Some ((T2 - T1) mod 86400) \<and>
         (1 \<le> rele_id sch \<and> rele_id sch \<le> 4 \<and> T1 \<noteq> T2 \<longrightarrow>
            due (last (timeouts (executeSchedule cfg sch s))) =
              now s + 1000 * ((T2 - T1) mod 86400))"
proof -
  have r1: "0 \<le> T1 \<and> T1 < 86400" using assms(1) by (rule moment_HHmm_range)
  have r2: "0 \<le> T2 \<and> T2 < 86400" using assms(2) by (rule moment_HHmm_range)
  have d: "schedule_duration sch = Some (if T2 - T1 < 0 then T2 - T1 + 86400 else T2 - T1)"
    using assms by (simp add: schedule_duration_def Let_def)
  have m: "(T2 - T1) mod 86400 = (if T2 \<ge> T1 then T2 - T1 else (86400 - T1) + T2)"
  proof (cases "T2 \<ge> T1")
    case True
    then show ?thesis using r1 r2 by simp
  next
    case False
    then have lo: "0 \<le> T2 - T1 + 86400" and hi: "T2 - T1 + 86400 < 86400"
      using r1 r2 by simp_all
    have "(T2 - T1 + 86400) mod 86400 = T2 - T1 + 86400"
      using lo hi by (rule mod_pos_pos_trivial)
    moreover have "(T2 - T1 + 86400) mod 86400 = (T2 - T1) mod 86400"
      by (rule mod_add_self2)
    ultimately show ?thesis using False by simp
  qed
  have a: "schedule_duration sch = Some (if T2 \<ge> T1 then T2 - T1 else (86400 - T1) + T2)"
    using d by auto
  have b: "schedule_duration sch = Some ((T2 - T1) mod 86400)"
    using a m by simp
  have c: "1 \<le> rele_id sch \<and> rele_id sch \<le> 4 \<and> T1 \<noteq> T2 \<longrightarrow>
            due (last (timeouts (executeSchedule cfg sch s))) =
              now s + 1000 * ((T2 - T1) mod 86400)"
  proof
    assume h: "1 \<le> rele_id sch \<and> rele_id sch \<le> 4 \<and> T1 \<noteq> T2"
    have pos: "1 \<le> (T2 - T1) mod 86400 \<and> (T2 - T1) mod 86400 < 86400"
      using m h r1 r2 by auto
    then have "timeout_delay (Some ((T2 - T1) mod 86400 * 1000)) = 1000 * ((T2 - T1) mod 86400)"
      by (simp add: timeout_delay_def)
    then show "due (last (timeouts (executeSchedule cfg sch s))) =
              now s + 1000 * ((T2 - T1) mod 86400)"
      using executeSchedule_timeouts [of sch cfg s] h b by simp
  qed
  from a b c show ?thesis by blast
qed

text \<open>From 22:00 to 06:30 is 8.5 hours; from 08:00 to 18:00 is 10 hours.\<close>

theorem schedule_duration_wraps_witness:
  "schedule_duration sched_night = Some 30600 \<and> schedule_duration sched_mon = Some 36000 \<and>
   due (last (timeouts (executeSchedule config_js sched_night (new_system None None)))) =
     30600000"
proof -
  have a: "moment_HHmm (start_time sched_night) = Some 79200" by code_simp
  have b: "moment_HHmm (end_time sched_night) = Some 23400" by code_simp
  have c: "moment_HHmm (start_time sched_mon) = Some 28800" by code_simp
  have d: "moment_HHmm (end_time sched_mon) = Some 64800" by code_simp
  have e: "rele_id sched_night = 3 \<and> now (new_system None None) = 0"
    by (simp add: sched_night_def new_system_def)
  show ?thesis
    using schedule_duration_wraps [OF a b, of config_js "new_system None None"]
      schedule_duration_wraps [OF c d, of config_js "new_system None None"] e
    by simp
qed

text \<open>
  Against claim C4 as stated. With start and end both 08:00, the end is not after the
  start, and the duration is 0 where the claim has (24h - T1) + T2, which is 24 hours.
\<close>

theorem equal_times_give_zero_duration:
  "moment_HHmm (start_time sched_same) = Some 28800 \<and>
   moment_HHmm (end_time sched_same) = Some 28800 \<and>
   schedule_duration sched_same = Some 0 \<and>
   schedule_duration sched_same \<noteq> Some ((24 * 60 * 60 - 28800) + 28800)"
  by code_simp

text \<open>
  Claim C6, as the code has it. The start hour and the start minute are what
  \<^verbatim>\<open>split(':').map(Number)\<close> reads from the start time; for a start time written as
  digits, a colon and digits they are the two decimal values. When the start hour is
  a whole number outside 0 to 23, or the start minute is a whole number outside 0 to
  59, \<open>addSchedule\<close> fails: the exception of \<^verbatim>\<open>cron.schedule\<close> is caught and written
  to the console, and to the console only, the system log being as before; no cron
  task is made, and the schedule does not enter \<open>activeSchedules\<close>. Nor does loading
  the rule table make a task for it.
\<close>

theorem invalid_start_time_not_registered:
  "((startHour sch = JInt h \<and> (h < 0 \<or> h > 23)) \<or>
    (startMinute sch = JInt m \<and> (m < 0 \<or> m > 59)) \<longrightarrow>
      addSchedule sch s =
        console_error (AddScheduleError (sched_id sch) InvalidCronExpression) s \<and>
      cron_tasks (addSchedule sch s) = cron_tasks s \<and>
      activeSchedules (addSchedule sch s) = activeSchedules s \<and>
      system_logs (addSchedule sch s) = system_logs s \<and>
      console_errors (addSchedule sch s) =
        console_errors s @ [AddScheduleError (sched_id sch) InvalidCronExpression] \<and>
      (RunSchedule sch \<notin> set (map task_action (cron_tasks s)) \<longrightarrow>
         RunSchedule sch \<notin> set (map task_action (cron_tasks (loadActiveSchedules s))))) \<and>
   (hh \<noteq> [] \<and> list_all is_digit hh \<and> mm \<noteq> [] \<and> list_all is_digit mm \<and>
    start_time sch = hh @ '':'' @ mm \<longrightarrow>
      startHour sch = JInt (dec_value hh) \<and> startMinute sch = JInt (dec_value mm))"
proof -
  have a: "(startHour sch = JInt h \<and> (h < 0 \<or> h > 23)) \<or>
      (startMinute sch = JInt m \<and> (m < 0 \<or> m > 59)) \<longrightarrow>
      \<not> cron_valid (createCronExpression sch)"
    by (auto simp: cron_valid_def createCronExpression_def valid_field_JInt)
  have b: "\<not> cron_valid (createCronExpression sch) \<longrightarrow>
      addSchedule sch s =
        console_error (AddScheduleError (sched_id sch) InvalidCronExpression) s"
    by (simp add: addSchedule_def cron_schedule_def Let_def)
  have c: "\<not> cron_valid (createCronExpression sch) \<longrightarrow>
      RunSchedule sch \<notin> set (map task_action (cron_tasks s)) \<longrightarrow>
      RunSchedule sch \<notin> set (map task_action (cron_tasks (loadActiveSchedules s)))"
    using loadActiveSchedules_actions [of s] by blast
  have d: "hh \<noteq> [] \<and> list_all is_digit hh \<and> mm \<noteq> [] \<and> list_all is_digit mm \<and>
      start_time sch = hh @ '':'' @ mm \<longrightarrow>
      startHour sch = JInt (dec_value hh) \<and> startMinute sch = JInt (dec_value mm)"
    using start_time_digits [of hh mm sch] by blast
  have e: "(startHour sch = JInt h \<and> (h < 0 \<or> h > 23)) \<or>
      (startMinute sch = JInt m \<and> (m < 0 \<or> m > 59)) \<longrightarrow>
      addSchedule sch s =
        console_error (AddScheduleError (sched_id sch) InvalidCronExpression) s \<and>
      (RunSchedule sch \<notin> set (map task_action (cron_tasks s)) \<longrightarrow>
         RunSchedule sch \<notin> set (map task_action (cron_tasks (loadActiveSchedules s))))"
    using a b c by blast
  show ?thesis
    using e d by (auto simp: console_error_def)
qed

text \<open>Start times 25:00, 08:75, 25 (no minute) and 25:00 after a blank.\<close>

theorem invalid_start_time_not_registered_witness:
  "cron_tasks (addSchedule sched_bad_hour (new_system None None)) = [] \<and>
   activeSchedules (addSchedule sched_bad_hour (new_system None None)) = [] \<and>
   console_errors (addSchedule sched_bad_hour (new_system None None)) =
     [AddScheduleError 4 InvalidCronExpression] \<and>
   cron_tasks (addSchedule sched_bad_minute (new_system None None)) = [] \<and>
   cron_tasks (addSchedule sched_hour_only (new_system None None)) = [] \<and>
   cron_tasks (addSchedule (sched_bad_hour\<lparr>start_time := '' 25:00''\<rparr>) (new_system None None)) = [] \<and>
   cron_tasks (loadActiveSchedules (new_system (Some [sched_bad_hour]) None)) = [] \<and>
   startHour sched_bad_hour = JInt 25 \<and> startMinute sched_bad_hour = JInt 0"
proof -
  have a: "startHour sched_bad_hour = JInt 25" by code_simp
  have c: "startMinute sched_bad_minute = JInt 75" by code_simp
  have d: "startHour sched_hour_only = JInt 25" by code_simp
  have f: "startHour (sched_bad_hour\<lparr>start_time := '' 25:00''\<rparr>) = JInt 25" by code_simp
  have g: "start_time sched_bad_hour = ''25'' @ '':'' @ ''00'' \<and> ''25'' \<noteq> [] \<and>
      list_all is_digit ''25'' \<and> ''00'' \<noteq> [] \<and> list_all is_digit ''00'' \<and>
      dec_value ''25'' = 25 \<and> dec_value ''00'' = 0"
    by code_simp
  have e: "loadActiveSchedules (new_system (Some [sched_bad_hour]) None) =
      addSchedule sched_bad_hour (new_system (Some [sched_bad_hour]) None)"
    by (simp add: loadActiveSchedules_def new_system_def)
  show ?thesis
    using invalid_start_time_not_registered [where sch = sched_bad_hour and h = 25 and m = 0
        and hh = "''25''" and mm = "''00''" and s = "new_system None None"]
      invalid_start_time_not_registered [where sch = sched_bad_minute and h = 8 and m = 75
        and hh = "''08''" and mm = "''75''" and s = "new_system None None"]
      invalid_start_time_not_registered [where sch = sched_hour_only and h = 25 and m = 0
        and hh = "''25''" and mm = "''00''" and s = "new_system None None"]
      invalid_start_time_not_registered
        [where sch = "sched_bad_hour\<lparr>start_time := '' 25:00''\<rparr>" and h = 25 and m = 0
        and hh = "''25''" and mm = "''00''" and s = "new_system None None"]
      invalid_start_time_not_registered [where sch = sched_bad_hour and h = 25 and m = 0
        and hh = "''25''" and mm = "''00''" and s = "new_system (Some [sched_bad_hour]) None"]
      a c d f g e
    by (simp add: new_system_def console_error_def sched_bad_hour_def)
qed

text \<open>
  Against claim C6 as stated. A schedule with start time 25:00 is refused, but the
  refusal is not logged: the system log is as empty as before, and the only trace is
  the line on the console.
\<close>

theorem invalid_start_time_is_not_logged:
  "system_logs (addSchedule sched_bad_hour (new_system None None)) = [] \<and>
   console_errors (addSchedule sched_bad_hour (new_system None None)) =
     [AddScheduleError 4 InvalidCronExpression] \<and>
   system_logs (loadActiveSchedules (new_system (Some [sched_bad_hour]) None)) = []"
  by code_simp

text \<open>
  Claim C1, as the code has it. Pending deactivations are stacked, not superseded.
  \<open>executeSchedule\<close> on a relay 1 to 4, and \<open>executeCondition\<close> with action
  \<^verbatim>\<open>activate\<close> and a positive duration on a relay 1 to 4, each leave every pending
  deactivation already armed in place and add exactly one for that relay behind them;
  for a condition it is due at the clock plus the duration in milliseconds, or plus 1 ms
  when that exceeds 2147483647. So after a schedule and then a condition, or two
  schedules, have armed for one relay, that relay has two more pending deactivations.
\<close>

theorem arming_appends_pending_deactivation:
  "(1 \<le> rele_id sch \<and> rele_id sch \<le> 4 \<longrightarrow>
      (\<exists>d. timeouts (executeSchedule cfg sch s) = timeouts s @
         [\<lparr>due = d, t_rele = rele_id sch,
           t_reason = ScheduleEnd (start_time sch) (end_time sch)\<rparr>])) \<and>
   (1 \<le> cond_rele_id c \<and> cond_rele_id c \<le> 4 \<and> action c = ''activate'' \<and> duration c > 0 \<longrightarrow>
      timeouts (executeCondition cfg c v s) = timeouts s @
        [\<lparr>due = now s + (if duration c * 1000 > 2147483647 then 1 else duration c * 1000),
          t_rele = cond_rele_id c,
          t_reason = ConditionEnd (condition_type c) (operator c) (threshold_value c)\<rparr>]) \<and>
   (1 \<le> rele_id sch \<and> rele_id sch \<le> 4 \<and> cond_rele_id c = rele_id sch \<and>
    action c = ''activate'' \<and> duration c > 0 \<longrightarrow>
      length (pending_deactivations (rele_id sch)
                (executeCondition cfg c v (executeSchedule cfg sch s))) =
        length (pending_deactivations (rele_id sch) s) + 2) \<and>
   (1 \<le> rele_id sch \<and> rele_id sch \<le> 4 \<longrightarrow>
      length (pending_deactivations (rele_id sch)
                (executeSchedule cfg sch (executeSchedule cfg sch s))) =
        length (pending_deactivations (rele_id sch) s) + 2)"
proof -
  have a: "1 \<le> rele_id sch \<and> rele_id sch \<le> 4 \<longrightarrow>
      (\<exists>d. timeouts (executeSchedule cfg sch s) = timeouts s @
         [\<lparr>due = d, t_rele = rele_id sch,
           t_reason = ScheduleEnd (start_time sch) (end_time sch)\<rparr>])"
    using executeSchedule_timeouts [of sch cfg s] by blast
  have b: "1 \<le> cond_rele_id c \<and> cond_rele_id c \<le> 4 \<and> action c = ''activate'' \<and> duration c > 0 \<longrightarrow>
      timeouts (executeCondition cfg c v s) = timeouts s @
        [\<lparr>due = now s + (if duration c * 1000 > 2147483647 then 1 else duration c * 1000),
          t_rele = cond_rele_id c,
          t_reason = ConditionEnd (condition_type c) (operator c) (threshold_value c)\<rparr>]"
    using executeCondition_timeouts [of c cfg v s] by (auto simp: timeout_delay_def)
  have c: "1 \<le> rele_id sch \<and> rele_id sch \<le> 4 \<and> cond_rele_id c = rele_id sch \<and>
    action c = ''activate'' \<and> duration c > 0 \<longrightarrow>
      length (pending_deactivations (rele_id sch)
                (executeCondition cfg c v (executeSchedule cfg sch s))) =
        length (pending_deactivations (rele_id sch) s) + 2"
    using executeSchedule_timeouts [of sch cfg s]
      executeCondition_timeouts [of c cfg v "executeSchedule cfg sch s"]
    by (auto simp: pending_deactivations_def)
  have d: "1 \<le> rele_id sch \<and> rele_id sch \<le> 4 \<longrightarrow>
      length (pending_deactivations (rele_id sch)
                (executeSchedule cfg sch (executeSchedule cfg sch s))) =
        length (pending_deactivations (rele_id sch) s) + 2"
    using executeSchedule_timeouts [of sch cfg s]
      executeSchedule_timeouts [of sch cfg "executeSchedule cfg sch s"]
    by (auto simp: pending_deactivations_def)
  from a b c d show ?thesis by blast
qed

text \<open>A schedule fires for relay 1, then a condition with a hold of 900 s fires for the
  same relay.\<close>

theorem arming_appends_pending_deactivation_witness:
  "map t_rele (timeouts (executeSchedule config_js sched_mon (new_system None None))) = [1] \<and>
   timeouts (executeCondition config_js cond_hot 31.2
       (executeSchedule config_js sched_mon (new_system None None))) =
     timeouts (executeSchedule config_js sched_mon (new_system None None)) @
     [\<lparr>due = 900000, t_rele = 1, t_reason = ConditionEnd ''temperature'' ''>'' 30\<rparr>] \<and>
   length (pending_deactivations 1 (executeCondition config_js cond_hot 31.2
       (executeSchedule config_js sched_mon (new_system None None)))) = 2 \<and>
   length (pending_deactivations 1 (executeSchedule config_js sched_mon
       (executeSchedule config_js sched_mon (new_system None None)))) = 2"
proof -
  have n: "now (executeSchedule config_js sched_mon (new_system None None)) = 0"
    by (simp add: executeSchedule_now new_system_def)
  have a: "timeouts (new_system None None) = [] \<and> now (new_system None None) = 0"
    by (simp add: new_system_def)
  have r: "rele_id sched_mon = 1 \<and> cond_rele_id cond_hot = 1 \<and> action cond_hot = ''activate'' \<and>
      duration cond_hot = 900 \<and> condition_type cond_hot = ''temperature'' \<and>
      operator cond_hot = ''>'' \<and> threshold_value cond_hot = 30"
    by (simp add: sched_mon_def cond_hot_def)
  show ?thesis
    using arming_appends_pending_deactivation
      [where sch = sched_mon and cfg = config_js and c = cond_hot and v = "31.2"
         and s = "executeSchedule config_js sched_mon (new_system None None)"]
      arming_appends_pending_deactivation
      [where sch = sched_mon and cfg = config_js and c = cond_hot and v = "31.2"
         and s = "new_system None None"]
      n a r
    by (auto simp: pending_deactivations_def)
qed

text \<open>
  Against claim C1 as stated. After a schedule and then a condition have armed a
  deactivation for relay 1, two are pending for it, and the one armed first is still
  there, with the later due time.
\<close>

theorem two_pending_deactivations_for_one_relay:
  "length (pending_deactivations 1
     (executeCondition config_js cond_hot 31.2
        (executeSchedule config_js sched_mon (new_system None None)))) = 2 \<and>
   map due (pending_deactivations 1
     (executeCondition config_js cond_hot 31.2
        (executeSchedule config_js sched_mon (new_system None None)))) = [36000000, 900000]"
  by code_simp


subsection \<open>Life cycle\<close>

text \<open>
  Claim C3, as the code has it. \<open>stop\<close> writes no pin and leaves \<open>releStates\<close> and
  the relay rows as they were, so every relay stays at its last commanded level. It
  does not cancel the pending deactivations: the ones armed before \<open>stop\<close> are all
  still armed after it and after a following \<open>init\<close>, and each fires when its due
  time comes: once the clock has reached a time \<open>t\<close>, those due by \<open>t\<close> have each
  written the pin of their relay with the level that switches it off, earliest first,
  and the others remain armed. (Armed deactivations are for relays 1 to 4.)
\<close>

theorem stop_keeps_relays_and_pending_deactivations:
  "releStates (stop s) = releStates s \<and> pin_writes (stop s) = pin_writes s \<and>
   rele_states (stop s) = rele_states s \<and>
   timeouts (stop s) = timeouts s \<and>
   timeouts (fst (init cfg (stop s))) = timeouts s \<and>
   ((\<forall>tm \<in> set (timeouts s). 1 \<le> t_rele tm \<and> t_rele tm \<le> 4) \<longrightarrow>
      pin_writes (advance_clock cfg t (fst (init cfg (stop s)))) =
        pin_writes s @ map (\<lambda>tm. (pin_at cfg (nat (t_rele tm - 1)),
                                   if releActiveLow cfg then HIGH else LOW))
                           (sort_key due (filter (\<lambda>tm. due tm \<le> t) (timeouts s))) \<and>
      timeouts (advance_clock cfg t (fst (init cfg (stop s)))) =
        filter (\<lambda>tm. \<not> due tm \<le> t) (timeouts s))"
proof -
  let ?s' = "fst (init cfg (stop s))"
  have a: "timeouts ?s' = timeouts s \<and> pin_writes ?s' = pin_writes s"
    using init_frame [of cfg "stop s"] stop_frame [of s] by simp
  have b: "(\<forall>tm \<in> set (timeouts s). 1 \<le> t_rele tm \<and> t_rele tm \<le> 4) \<longrightarrow>
      pin_writes (advance_clock cfg t ?s') =
        pin_writes s @ map (\<lambda>tm. (pin_at cfg (nat (t_rele tm - 1)),
                                   if releActiveLow cfg then HIGH else LOW))
                           (sort_key due (filter (\<lambda>tm. due tm \<le> t) (timeouts s))) \<and>
      timeouts (advance_clock cfg t ?s') = filter (\<lambda>tm. \<not> due tm \<le> t) (timeouts s)"
    using advance_clock_fires [of ?s' cfg t] a by simp
  show ?thesis
    using stop_frame [of s] a b by blast
qed

text \<open>The schedule has fired on Monday at 08:00 and armed the deactivation of relay 1
  (pin 2), due ten hours later; \<open>stop\<close> and \<open>init\<close> follow, and the clock reaches the
  due time.\<close>

theorem stop_keeps_relays_and_pending_deactivations_witness:
  "(let s0 = new_Scheduler config_6h (Some [sched_mon]) (Some []);
        s1 = cron_tick config_6h (1, 8, 0) s0;
        s2 = fst (init config_6h (stop s1))
    in map t_rele (timeouts s1) = [1] \<and> map due (timeouts s1) = [36000000] \<and>
       releStates (stop s1) = releStates s1 \<and>
       timeouts s2 = timeouts s1 \<and>
       pin_writes (advance_clock config_6h 36000000 s2) = pin_writes s1 @ [(Some 2, HIGH)] \<and>
       timeouts (advance_clock config_6h 36000000 s2) = [])"
proof -
  let ?s1 = "cron_tick config_6h (1, 8, 0) (new_Scheduler config_6h (Some [sched_mon]) (Some []))"
  have a: "timeouts ?s1 =
      [\<lparr>due = 36000000, t_rele = 1, t_reason = ScheduleEnd ''08:00'' ''18:00''\<rparr>]"
    by code_simp
  have c: "pin_at config_6h 0 = Some 2 \<and> releActiveLow config_6h"
    by code_simp
  show ?thesis
    using stop_keeps_relays_and_pending_deactivations [of ?s1 config_6h 36000000] a c
    by (simp add: Let_def)
qed

text \<open>
  Against claim C3 as stated. The schedule fires on Monday at 08:00 and arms the
  deactivation of relay 1, due ten hours later. \<open>stop\<close> and then \<open>init\<close> follow. The
  deactivation is still armed after \<open>stop\<close>, and when the clock reaches its due time
  it switches relay 1 off.
\<close>

theorem stop_leaves_pending_deactivation:
  "(let s0 = new_Scheduler config_6h (Some [sched_mon]) (Some []);
        s1 = cron_tick config_6h (1, 8, 0) s0;
        s2 = fst (init config_6h (stop s1));
        s3 = advance_clock config_6h 36000000 s2
    in releStates s1 = [True, False, False, False] \<and>
       map due (timeouts (stop s1)) = [36000000] \<and>
       releStates s2 = [True, False, False, False] \<and>
       releStates s3 = [False, False, False, False] \<and>
       last (rele_states s3) = \<lparr>row_rele_id = JInt 1, row_state = False,
          row_reason = ScheduleEnd ''08:00'' ''18:00''\<rparr>)"
  by code_simp

text \<open>
  Claim C8, as the code has it. A failure to load rules is not fatal and does not
  surface. A rejected query for the schedules is caught in \<open>loadActiveSchedules\<close>, and
  a rejected query for the conditions in \<open>loadActiveConditions\<close>; each is written to
  the console only and leaves the rule map it would have filled as it was. \<open>init\<close>
  goes on, returns normally, and, when the housekeeping tasks register (no backup, or
  a backup hour from 0 to 23), ends in the running state, having added to the system
  log the one entry of level \<open>Info\<close> that reports the initialisation.
\<close>

theorem rule_load_failure_absorbed:
  "snd (init cfg s) = Inr () \<and>
   ((\<not> backup_enabled cfg \<or> 0 \<le> backup_frequency cfg \<and> backup_frequency cfg \<le> 23) \<longrightarrow>
      isRunning (fst (init cfg s)) \<and>
      system_logs (fst (init cfg s)) = system_logs s @
        [\<lparr>level = Info, msg = SchedulerInitialized, source = ''Scheduler''\<rparr>] \<and>
      (stored_schedules s = None \<longrightarrow>
         activeSchedules (fst (init cfg s)) = activeSchedules s \<and>
         LoadSchedulesError QueryFailed \<in> set (console_errors (fst (init cfg s)))) \<and>
      (stored_conditions s = None \<longrightarrow>
         activeConditions (fst (init cfg s)) = activeConditions s \<and>
         LoadConditionsError QueryFailed \<in> set (console_errors (fst (init cfg s)))))"
proof -
  let ?s1 = "loadActiveSchedules s"
  let ?s2 = "loadActiveConditions ?s1"
  let ?s3 = "fst (startScheduledTasks cfg ?s2)"
  have f1: "system_logs ?s1 = system_logs s \<and> activeConditions ?s1 = activeConditions s \<and>
      stored_conditions ?s1 = stored_conditions s \<and>
      set (console_errors s) \<subseteq> set (console_errors ?s1)"
    using loadActiveSchedules_frame [of s] by simp
  have f2: "system_logs ?s2 = system_logs ?s1 \<and> activeSchedules ?s2 = activeSchedules ?s1 \<and>
      set (console_errors ?s1) \<subseteq> set (console_errors ?s2)"
    using loadActiveConditions_frame [of ?s1] by simp
  have f3: "system_logs ?s3 = system_logs ?s2 \<and> console_errors ?s3 = console_errors ?s2 \<and>
      activeSchedules ?s3 = activeSchedules ?s2 \<and> activeConditions ?s3 = activeConditions ?s2"
    using startScheduledTasks_frame [of cfg ?s2] by simp
  have n1: "stored_schedules s = None \<longrightarrow>
      activeSchedules ?s1 = activeSchedules s \<and>
      LoadSchedulesError QueryFailed \<in> set (console_errors ?s1)"
    by (simp add: loadActiveSchedules_def console_error_def)
  have n2: "stored_conditions s = None \<longrightarrow>
      activeConditions ?s2 = activeConditions ?s1 \<and>
      LoadConditionsError QueryFailed \<in> set (console_errors ?s2)"
    using f1 by (simp add: loadActiveConditions_def console_error_def)
  have r: "(\<not> backup_enabled cfg \<or> 0 \<le> backup_frequency cfg \<and> backup_frequency cfg \<le> 23) \<longrightarrow>
      fst (init cfg s) =
        saveSystemLog Info SchedulerInitialized ''Scheduler''
          ((startConditionChecker ?s3)\<lparr>isRunning := True\<rparr>)"
  proof
    assume h: "\<not> backup_enabled cfg \<or> 0 \<le> backup_frequency cfg \<and> backup_frequency cfg \<le> 23"
    obtain s3 where e: "startScheduledTasks cfg ?s2 = (s3, Inr ())"
      using startScheduledTasks_ok [OF h, of ?s2] by (metis prod.collapse)
    then have "?s3 = s3" by simp
    then show "fst (init cfg s) =
        saveSystemLog Info SchedulerInitialized ''Scheduler''
          ((startConditionChecker ?s3)\<lparr>isRunning := True\<rparr>)"
      using e by (simp add: init_def init_try_def Let_def)
  qed
  have g: "(\<not> backup_enabled cfg \<or> 0 \<le> backup_frequency cfg \<and> backup_frequency cfg \<le> 23) \<longrightarrow>
      isRunning (fst (init cfg s)) \<and>
      system_logs (fst (init cfg s)) = system_logs ?s3 @
        [\<lparr>level = Info, msg = SchedulerInitialized, source = ''Scheduler''\<rparr>] \<and>
      activeSchedules (fst (init cfg s)) = activeSchedules ?s3 \<and>
      activeConditions (fst (init cfg s)) = activeConditions ?s3 \<and>
      console_errors (fst (init cfg s)) = console_errors ?s3"
    using r by (auto simp: saveSystemLog_def startConditionChecker_def setInterval_def)
  show ?thesis
    using init_returns [of cfg s] g f1 f2 f3 n1 n2 by auto
qed

text \<open>Both rule queries rejected, then the query for the conditions alone, with a backup
  every 6 hours.\<close>

theorem rule_load_failure_absorbed_witness:
  "(let s = GPIOController_init config_6h (new_system None None);
        s' = GPIOController_init config_6h (new_system (Some [sched_mon]) None)
    in snd (init config_6h s) = Inr () \<and> isRunning (fst (init config_6h s)) \<and>
       activeSchedules (fst (init config_6h s)) = [] \<and>
       activeConditions (fst (init config_6h s)) = [] \<and>
       isRunning (fst (init config_6h s')) \<and>
       activeConditions (fst (init config_6h s')) = [] \<and>
       LoadConditionsError QueryFailed \<in> set (console_errors (fst (init config_6h s'))))"
proof -
  let ?s = "GPIOController_init config_6h (new_system None None)"
  let ?s' = "GPIOController_init config_6h (new_system (Some [sched_mon]) None)"
  have a: "stored_schedules ?s = None \<and> stored_conditions ?s = None \<and>
      stored_conditions ?s' = None"
    by code_simp
  have b: "backup_frequency config_6h = 6" by code_simp
  have c: "activeSchedules ?s = [] \<and> activeConditions ?s = [] \<and> activeConditions ?s' = []"
    by code_simp
  show ?thesis
    using rule_load_failure_absorbed [of config_6h ?s]
      rule_load_failure_absorbed [of config_6h ?s'] a b c
    by (simp add: Let_def)
qed

text \<open>
  Against claim C8 as stated. With both rule queries rejected, \<open>init\<close> returns
  normally, the scheduler is running, and the system log holds two entries of level
  \<open>Info\<close> and none of level \<open>Error\<close>.
\<close>

theorem init_runs_without_rules:
  "(let s = GPIOController_init config_6h (new_system None None)
    in snd (init config_6h s) = Inr () \<and> isRunning (fst (init config_6h s)) \<and>
       map level (system_logs (fst (init config_6h s))) = [Info, Info])"
  by code_simp

text \<open>
  Claim C2, evaluated. A scheduler is made over a rule table holding one schedule
  (relay 1, Monday, 08:00 to 18:00) and restarted twice. After the first restart the
  schedule has two live triggers, after the second three, where the claim has the same
  set after both. On Monday at 08:00 all three fire: the schedule runs three times and
  arms three deactivations of relay 1. With a backup hour that registers, the condition
  poller is likewise started once more by every restart.
\<close>

theorem restart_twice_adds_triggers:
  "(let s0 = new_Scheduler config_js (Some [sched_mon]) (Some []);
        s1 = fst (restart config_js s0);
        s2 = fst (restart config_js s1)
    in length (live_triggers sched_mon s1) = 2 \<and> length (live_triggers sched_mon s2) = 3 \<and>
       length (pending_deactivations 1 (cron_tick config_js (1, 8, 0) s2)) = 3) \<and>
   (let s0 = new_Scheduler config_6h (Some [sched_mon]) (Some []);
        s1 = fst (restart config_6h s0);
        s2 = fst (restart config_6h s1)
    in length (live_triggers sched_mon s1) = 2 \<and> length (live_triggers sched_mon s2) = 3 \<and>
       intervals s1 = 2 \<and> intervals s2 = 3 \<and>
       length (pending_deactivations 1 (cron_tick config_6h (1, 8, 0) s2)) = 3)"
  by code_simp

end
